theory Spec2Isabelle
  imports Main
begin

section \<open>Strings as the source uses them\<close>

text \<open>
  A JavaScript string is modelled as a \<open>string\<close> (a list of characters); the line feed is
  the character with code 10.
\<close>

definition LF :: char where
  "LF = CHR 0x0A"

text \<open>
  \<open>data.split('\n')\<close>: the pieces between line feeds. The result is never empty: the empty
  string splits into one empty piece, and a trailing line feed gives a last empty piece.
\<close>

fun split_lines :: "string \<Rightarrow> string list" where
  "split_lines [] = [[]]"
| "split_lines (c # cs) =
     (if c = LF then [] # split_lines cs
      else (c # hd (split_lines cs)) # tl (split_lines cs))"

section \<open>Thrown values\<close>

text \<open>
  A thrown value. \<open>Error\<close> is \<open>new Error(message)\<close>, \<open>TypeError\<close> is what the runtime
  throws on a property access on \<open>null\<close>, \<open>RangeError\<close> is what it throws when a call is
  given more arguments than it takes, and \<open>GitError\<close> is the rejection of a git command
  run through simple-git. The text of a git error is git's own; the model keeps the name
  of the rejected command in its place. \<open>render\<close> is \<open>String(error)\<close>.
\<close>

datatype js_error = Error string | TypeError string | RangeError string | GitError string

fun render :: "js_error \<Rightarrow> string" where
  "render (Error m) = ''Error: '' @ m"
| "render (TypeError m) = ''TypeError: '' @ m"
| "render (RangeError m) = ''RangeError: '' @ m"
| "render (GitError m) = ''Error: '' @ m"

section \<open>Terminal sessions (backend/src/lib/terminal.ts)\<close>

datatype session_status = SessionStarting | SessionRunning | SessionStopped | SessionError

text \<open>
  \<open>interface TerminalSession\<close>. A process handle and a websocket are opaque objects of the
  runtime: each is modelled by a number that identifies it. \<open>clients\<close> is a JavaScript
  \<open>Set\<close>.
\<close>

record TerminalSession =
  ticketId :: string
  process :: "nat option"
  clients :: "nat set"
  outputBuffer :: "string list"
  maxBufferLines :: nat
  status :: session_status
  startedAt :: "nat option"
  error :: "string option"

text \<open>
  The module state is the map \<open>sessions\<close>. What the module does to the outside is kept
  beside it: \<open>inbox ws\<close> is the sequence of messages that \<open>ws.send\<close> has delivered to
  websocket \<open>ws\<close>, \<open>closed\<close> holds the websockets on which \<open>send\<close> throws, and
  \<open>killed\<close> lists the process handles on which \<open>kill()\<close> was called.
\<close>

record terminal_state =
  sessions :: "string \<rightharpoonup> TerminalSession"
  inbox :: "nat \<Rightarrow> string list"
  closed :: "nat set"
  killed :: "nat list"

definition newSession :: "string \<Rightarrow> TerminalSession" where
  "newSession t =
     \<lparr> ticketId = t, process = None, clients = {}, outputBuffer = [],
       maxBufferLines = 1000, status = SessionStopped, startedAt = None, error = None \<rparr>"

definition getOrCreateTerminalSession ::
  "string \<Rightarrow> terminal_state \<Rightarrow> TerminalSession \<times> terminal_state" where
  "getOrCreateTerminalSession t w =
     (case sessions w t of
        Some s \<Rightarrow> (s, w)
      | None \<Rightarrow> (newSession t, w\<lparr>sessions := (sessions w)(t \<mapsto> newSession t)\<rparr>))"

definition getTerminalSession :: "string \<Rightarrow> terminal_state \<Rightarrow> TerminalSession option" where
  "getTerminalSession t w = sessions w t"

text \<open>
  The loop \<open>while (buffer.length > max) buffer.shift()\<close> of \<open>bufferOutput\<close>: it drops the
  first entry as long as the buffer is too long.
\<close>

fun trimBuffer :: "nat \<Rightarrow> 'a list \<Rightarrow> 'a list" where
  "trimBuffer m [] = []"
| "trimBuffer m (x # xs) = (if length (x # xs) > m then trimBuffer m xs else x # xs)"

text \<open>
  \<open>outputBuffer.push(...lines)\<close> passes every line as an argument of its own, and the
  runtime takes at most 65536 arguments in a call: a chunk with more lines makes the call
  throw before anything is pushed.
\<close>

definition spreadLimit :: nat where
  "spreadLimit = 65536"

text \<open>The session after the push and the trimming loop, when the push returns.\<close>

definition pushAndTrim :: "TerminalSession \<Rightarrow> string \<Rightarrow> TerminalSession" where
  "pushAndTrim s data =
     s\<lparr>outputBuffer := trimBuffer (maxBufferLines s) (outputBuffer s @ split_lines data)\<rparr>"

definition bufferOutput :: "TerminalSession \<Rightarrow> string \<Rightarrow> js_error + TerminalSession" where
  "bufferOutput s data =
     (if length (split_lines data) > spreadLimit
      then Inl (RangeError ''Maximum call stack size exceeded.'')
      else Inr (pushAndTrim s data))"

text \<open>
  A sequence of calls of \<open>bufferOutput\<close> on one session, as its caller makes them: the
  first call that throws ends the sequence.
\<close>

fun bufferOutputs :: "TerminalSession \<Rightarrow> string list \<Rightarrow> js_error + TerminalSession" where
  "bufferOutputs s [] = Inr s"
| "bufferOutputs s (c # cs) =
     (case bufferOutput s c of
        Inl e \<Rightarrow> Inl e
      | Inr s' \<Rightarrow> bufferOutputs s' cs)"

text \<open>\<open>ws.send(data)\<close>: delivers the message, or throws on a closed socket.\<close>

definition send :: "nat \<Rightarrow> string \<Rightarrow> terminal_state \<Rightarrow> terminal_state option" where
  "send ws data w =
     (if ws \<in> closed w then None
      else Some (w\<lparr>inbox := (inbox w)(ws := inbox w ws @ [data])\<rparr>))"

text \<open>
  \<open>broadcastToSession\<close>: every client of the session is sent the data once; a client whose
  \<open>send\<close> throws is deleted from the set. The sends to different clients do not
  influence each other, so the loop over the set is written as its effect on each client.
\<close>

definition broadcastToSession :: "string \<Rightarrow> string \<Rightarrow> terminal_state \<Rightarrow> terminal_state" where
  "broadcastToSession t data w =
     (case sessions w t of
        None \<Rightarrow> w
      | Some s \<Rightarrow>
          w\<lparr> inbox := (\<lambda>c. if c \<in> clients s \<and> c \<notin> closed w then inbox w c @ [data]
                           else inbox w c),
             sessions := (sessions w)(t \<mapsto> s\<lparr>clients := clients s - closed w\<rparr>) \<rparr>)"

definition addClientToSession :: "string \<Rightarrow> nat \<Rightarrow> terminal_state \<Rightarrow> terminal_state" where
  "addClientToSession t ws w =
     (let (s, w1) = getOrCreateTerminalSession t w;
          w2 = w1\<lparr>sessions := (sessions w1)(t \<mapsto> s\<lparr>clients := insert ws (clients s)\<rparr>)\<rparr>
      in if length (outputBuffer s) > 0
         then (case send ws (concat (outputBuffer s)) w2 of
                 Some w3 \<Rightarrow> w3
               | None \<Rightarrow> w2)
         else w2)"

definition removeClientFromSession :: "string \<Rightarrow> nat \<Rightarrow> terminal_state \<Rightarrow> terminal_state" where
  "removeClientFromSession t ws w =
     (case sessions w t of
        Some s \<Rightarrow> w\<lparr>sessions := (sessions w)(t \<mapsto> s\<lparr>clients := clients s - {ws}\<rparr>)\<rparr>
      | None \<Rightarrow> w)"

definition killTerminalSession :: "string \<Rightarrow> terminal_state \<Rightarrow> terminal_state" where
  "killTerminalSession t w =
     (case sessions w t of
        None \<Rightarrow> w
      | Some s \<Rightarrow>
          (case process s of
             None \<Rightarrow> w
           | Some p \<Rightarrow>
               w\<lparr> killed := killed w @ [p],
                  sessions := (sessions w)(t \<mapsto> s\<lparr>process := None, status := SessionStopped\<rparr>) \<rparr>))"

text \<open>
  One turn of the stdout reader loop of \<open>startTerminalSession\<close>, for the session object
  stored under the ticket: the chunk is buffered, then broadcast. The loop stands inside a
  \<open>try\<close>: when \<open>bufferOutput\<close> throws, the chunk is neither buffered nor broadcast, the
  error is logged and the loop is over (\<open>None\<close>).
\<close>

definition stdoutChunk :: "string \<Rightarrow> string \<Rightarrow> terminal_state \<Rightarrow> terminal_state option" where
  "stdoutChunk t text w =
     (case sessions w t of
        None \<Rightarrow> Some w
      | Some s \<Rightarrow>
          (case bufferOutput s text of
             Inl e \<Rightarrow> None
           | Inr s' \<Rightarrow>
               Some (broadcastToSession t text (w\<lparr>sessions := (sessions w)(t \<mapsto> s')\<rparr>))))"

text \<open>
  The reader loop over the chunks that the process writes: it relays them in order until
  one makes \<open>bufferOutput\<close> throw; the chunks after that one are not read.
\<close>

fun stdoutChunks :: "string \<Rightarrow> string list \<Rightarrow> terminal_state \<Rightarrow> terminal_state" where
  "stdoutChunks t [] w = w"
| "stdoutChunks t (c # cs) w =
     (case stdoutChunk t c w of
        None \<Rightarrow> w
      | Some w' \<Rightarrow> stdoutChunks t cs w')"

text \<open>The ring buffer of the session of a ticket; empty when there is no session yet.\<close>

definition bufferOf :: "string \<Rightarrow> terminal_state \<Rightarrow> string list" where
  "bufferOf t w = (case sessions w t of None \<Rightarrow> [] | Some s \<Rightarrow> outputBuffer s)"

text \<open>Every chunk has few enough lines for the push of \<open>bufferOutput\<close> to return.\<close>

definition withinSpreadLimit :: "string list \<Rightarrow> bool" where
  "withinSpreadLimit chunks = list_all (\<lambda>c. length (split_lines c) \<le> spreadLimit) chunks"

section \<open>The workspace manager (backend/src/lib/worktree.ts)\<close>

text \<open>\<open>interface Worktree\<close>.\<close>

record Worktree =
  path :: string
  branch :: string
  head :: string
  locked :: bool
  wtTicketId :: "string option"

text \<open>
  What the manager acts on: the directories that exist on disk, the working trees that git
  has registered (each locked or not, each with or without uncommitted changes) and the
  local branches (each fully merged or not). \<open>worktreesDir\<close> is the manager's
  configuration; both singletons of the server are taken as initialised.
\<close>

record wt_entry =
  isLocked :: bool
  isDirty :: bool

record git_state =
  worktreesDir :: string
  dirs :: "string set"
  registered :: "string \<rightharpoonup> wt_entry"
  branches :: "string \<rightharpoonup> bool"

text \<open>
  The outcome of a git command is decided by the state above, except where it depends on
  what the model does not hold: \<open>git fetch\<close> needs the remote, \<open>git worktree add\<close>
  needs the start point \<open>origin/base\<close> and may stop half way, and \<open>git log\<close> reads the
  history. These outcomes are given to \<open>create\<close> from outside. When
  \<open>git worktree add\<close> stops half way (\<open>AddRejectedLeavingDir\<close>) it has created the
  branch, registered the working tree and made the directory, and leaves all three behind.
\<close>

datatype add_outcome = AddProceeds | AddRejected | AddRejectedLeavingDir

datatype log_outcome = LogThrows | LogEmpty | LogLatest string

record create_env =
  fetchFails :: bool
  addOutcome :: add_outcome
  logOutcome :: log_outcome

text \<open>
  \<open>join(worktreesDir, `ticket-${ticketId}`)\<close> and \<open>`ticket/${ticketId}`\<close>. Ticket
  identifiers are taken as plain path segments, for which \<open>join\<close> is concatenation.
\<close>

definition worktreePathOf :: "git_state \<Rightarrow> string \<Rightarrow> string" where
  "worktreePathOf g t = worktreesDir g @ ''/ticket-'' @ t"

definition branchNameOf :: "string \<Rightarrow> string" where
  "branchNameOf t = ''ticket/'' @ t"

definition existsSync :: "string \<Rightarrow> git_state \<Rightarrow> bool" where
  "existsSync p g = (p \<in> dirs g)"

text \<open>\<open>rmSync(p, {recursive: true, force: true})\<close>.\<close>

definition rmSync :: "string \<Rightarrow> git_state \<Rightarrow> git_state" where
  "rmSync p g = g\<lparr>dirs := dirs g - {p}\<rparr>"

text \<open>\<open>git worktree add -b b p origin/base\<close>.\<close>

definition git_worktree_add ::
  "add_outcome \<Rightarrow> string \<Rightarrow> string \<Rightarrow> git_state \<Rightarrow> (js_error + unit) \<times> git_state" where
  "git_worktree_add outcome b p g =
     (if b \<in> dom (branches g) \<or> p \<in> dom (registered g) \<or> p \<in> dirs g
         \<or> outcome = AddRejected
      then (Inl (GitError ''worktree add''), g)
      else if outcome = AddRejectedLeavingDir
      then (Inl (GitError ''worktree add''),
            g\<lparr> dirs := insert p (dirs g),
               registered := (registered g)(p \<mapsto> \<lparr>isLocked = False, isDirty = False\<rparr>),
               branches := (branches g)(b \<mapsto> True) \<rparr>)
      else (Inr (),
            g\<lparr> dirs := insert p (dirs g),
               registered := (registered g)(p \<mapsto> \<lparr>isLocked = False, isDirty = False\<rparr>),
               branches := (branches g)(b \<mapsto> True) \<rparr>))"

text \<open>\<open>git worktree lock p\<close> and \<open>git worktree unlock p\<close>.\<close>

definition git_worktree_lock :: "string \<Rightarrow> git_state \<Rightarrow> (js_error + unit) \<times> git_state" where
  "git_worktree_lock p g =
     (case registered g p of
        None \<Rightarrow> (Inl (GitError ''worktree lock''), g)
      | Some e \<Rightarrow>
          if isLocked e then (Inl (GitError ''worktree lock''), g)
          else (Inr (), g\<lparr>registered := (registered g)(p \<mapsto> e\<lparr>isLocked := True\<rparr>)\<rparr>))"

definition git_worktree_unlock :: "string \<Rightarrow> git_state \<Rightarrow> (js_error + unit) \<times> git_state" where
  "git_worktree_unlock p g =
     (case registered g p of
        None \<Rightarrow> (Inl (GitError ''worktree unlock''), g)
      | Some e \<Rightarrow>
          if isLocked e
          then (Inr (), g\<lparr>registered := (registered g)(p \<mapsto> e\<lparr>isLocked := False\<rparr>)\<rparr>)
          else (Inl (GitError ''worktree unlock''), g))"

text \<open>
  \<open>git worktree remove p\<close>, with \<open>--force\<close> when \<open>force\<close>: a locked working tree is
  refused, one with uncommitted changes is refused unless forced; otherwise the directory
  and the registration go.
\<close>

definition git_worktree_remove ::
  "string \<Rightarrow> bool \<Rightarrow> git_state \<Rightarrow> (js_error + unit) \<times> git_state" where
  "git_worktree_remove p force g =
     (case registered g p of
        None \<Rightarrow> (Inl (GitError ''worktree remove''), g)
      | Some e \<Rightarrow>
          if isLocked e then (Inl (GitError ''worktree remove''), g)
          else if p \<in> dirs g \<and> isDirty e \<and> \<not> force then (Inl (GitError ''worktree remove''), g)
          else (Inr (), g\<lparr>dirs := dirs g - {p}, registered := (registered g)(p := None)\<rparr>))"

text \<open>\<open>git.deleteLocalBranch(b, force)\<close>: an unmerged branch is deleted only when forced.\<close>

definition deleteLocalBranch ::
  "string \<Rightarrow> bool \<Rightarrow> git_state \<Rightarrow> (js_error + unit) \<times> git_state" where
  "deleteLocalBranch b force g =
     (case branches g b of
        None \<Rightarrow> (Inl (GitError ''branch''), g)
      | Some merged \<Rightarrow>
          if merged \<or> force then (Inr (), g\<lparr>branches := (branches g)(b := None)\<rparr>)
          else (Inl (GitError ''branch''), g))"

definition lock :: "string \<Rightarrow> string option \<Rightarrow> git_state \<Rightarrow> (js_error + unit) \<times> git_state" where
  "lock t reason g = git_worktree_lock (worktreePathOf g t) g"

definition unlock :: "string \<Rightarrow> git_state \<Rightarrow> (js_error + unit) \<times> git_state" where
  "unlock t g = git_worktree_unlock (worktreePathOf g t) g"

text \<open>
  \<open>remove(ticketId, force)\<close>: unlock with the error ignored, remove the working tree, and
  delete the branch with the error ignored.
\<close>

definition remove :: "string \<Rightarrow> bool \<Rightarrow> git_state \<Rightarrow> (js_error + unit) \<times> git_state" where
  "remove t force g =
     (let p = worktreePathOf g t; b = branchNameOf t; g1 = snd (unlock t g) in
      case git_worktree_remove p force g1 of
        (Inl e, g2) \<Rightarrow> (Inl e, g2)
      | (Inr u, g2) \<Rightarrow> (Inr (), snd (deleteLocalBranch b force g2)))"

text \<open>\<open>getHead\<close>: \<open>log.latest?.hash || ''\<close>.\<close>

definition getHead :: "log_outcome \<Rightarrow> js_error + string" where
  "getHead outcome =
     (case outcome of
        LogThrows \<Rightarrow> Inl (GitError ''log'')
      | LogEmpty \<Rightarrow> Inr []
      | LogLatest h \<Rightarrow> Inr h)"

text \<open>
  The \<open>catch\<close> block of \<open>create\<close>: the directory is removed when it exists, and the error is
  thrown again.
\<close>

definition create_cleanup :: "string \<Rightarrow> js_error \<Rightarrow> git_state \<Rightarrow> (js_error + Worktree) \<times> git_state" where
  "create_cleanup p e g = (Inl e, if existsSync p g then rmSync p g else g)"

definition create ::
  "create_env \<Rightarrow> string \<Rightarrow> string \<Rightarrow> git_state \<Rightarrow> (js_error + Worktree) \<times> git_state" where
  "create env t baseBranch g =
     (let p = worktreePathOf g t; b = branchNameOf t in
      if existsSync p g
      then (Inl (Error (''Worktree already exists for ticket '' @ t)), g)
      else if fetchFails env then create_cleanup p (GitError ''fetch'') g
      else
        (case git_worktree_add (addOutcome env) b p g of
           (Inl e, g1) \<Rightarrow> create_cleanup p e g1
         | (Inr u, g1) \<Rightarrow>
             (case lock t (Some (''Agent working on ticket '' @ t)) g1 of
                (Inl e, g2) \<Rightarrow> create_cleanup p e g2
              | (Inr u', g2) \<Rightarrow>
                  (case getHead (logOutcome env) of
                     Inl e \<Rightarrow> create_cleanup p e g2
                   | Inr h \<Rightarrow>
                       (Inr \<lparr> path = p, branch = b, head = h, locked = True,
                              wtTicketId = Some t \<rparr>, g2)))))"

section \<open>Text functions of the orchestrator\<close>

definition DQ :: char where
  "DQ = CHR 0x22"

text \<open>Decimal rendering of a number inside a template string.\<close>

definition digit :: "nat \<Rightarrow> char" where
  "digit n = ''0123456789'' ! n"

function string_of_nat :: "nat \<Rightarrow> string" where
  "string_of_nat n =
     (if n < 10 then [digit n] else string_of_nat (n div 10) @ [digit (n mod 10)])"
  by pat_completeness auto
termination
  by (relation "measure id") auto

declare string_of_nat.simps [simp del]

text \<open>\<open>s.startsWith(p)\<close>, and the rest of \<open>s\<close> after the prefix \<open>p\<close>.\<close>

fun strip_prefix :: "string \<Rightarrow> string \<Rightarrow> string option" where
  "strip_prefix [] s = Some s"
| "strip_prefix (p # ps) [] = None"
| "strip_prefix (p # ps) (c # cs) = (if c = p then strip_prefix ps cs else None)"

text \<open>\<open>s.includes(sub)\<close>: \<open>sub\<close> starts at some position of \<open>s\<close>.\<close>

fun str_includes :: "string \<Rightarrow> string \<Rightarrow> bool" where
  "str_includes [] sub = (sub = [])"
| "str_includes (c # cs) sub = (strip_prefix sub (c # cs) \<noteq> None \<or> str_includes cs sub)"

text \<open>The text after the first occurrence of \<open>m\<close> in a string, if \<open>m\<close> occurs.\<close>

fun after_first :: "string \<Rightarrow> string \<Rightarrow> string option" where
  "after_first m [] = strip_prefix m []"
| "after_first m (c # cs) =
     (case strip_prefix m (c # cs) of
        Some r \<Rightarrow> Some r
      | None \<Rightarrow> after_first m cs)"

text \<open>
  The class \<open>\s\<close> of a regular expression, which is also what \<open>trim()\<close> removes: tab, line
  feed, vertical tab, form feed, carriage return, space and no-break space. Characters
  have eight bits here, so the white space beyond code 255 does not occur.
\<close>

definition isSpace :: "char \<Rightarrow> bool" where
  "isSpace c = (c \<in> set [CHR 0x09, CHR 0x0A, CHR 0x0B, CHR 0x0C, CHR 0x0D, CHR 0x20, CHR 0xA0])"

definition trim :: "string \<Rightarrow> string" where
  "trim s = rev (dropWhile isSpace (rev (dropWhile isSpace s)))"

text \<open>ASCII letters, compared without case as the flag \<open>i\<close> asks.\<close>

definition lower :: "char \<Rightarrow> char" where
  "lower c =
     (case map_of (zip ''ABCDEFGHIJKLMNOPQRSTUVWXYZ'' ''abcdefghijklmnopqrstuvwxyz'') c of
        Some l \<Rightarrow> l
      | None \<Rightarrow> c)"

fun strip_prefix_ci :: "string \<Rightarrow> string \<Rightarrow> string option" where
  "strip_prefix_ci [] s = Some s"
| "strip_prefix_ci (p # ps) [] = None"
| "strip_prefix_ci (p # ps) (c # cs) = (if lower c = p then strip_prefix_ci ps cs else None)"

text \<open>The classes \<open>["\s:]\<close> and \<open>[a-zA-Z0-9-]\<close>.\<close>

definition isSeparator :: "char \<Rightarrow> bool" where
  "isSeparator c = (c = DQ \<or> isSpace c \<or> c = CHR '':'')"

definition isIdChar :: "char \<Rightarrow> bool" where
  "isIdChar c =
     (c \<in> set ''abcdefghijklmnopqrstuvwxyzABCDEFGHIJKLMNOPQRSTUVWXYZ0123456789-'')"

text \<open>
  A match of \<open>/session[_-]?id["\s:]+([a-zA-Z0-9-]+)/i\<close> that starts at the beginning of
  the string; the result is the group. The classes of the two repetitions do not overlap,
  so the greedy match is the only one.
\<close>

definition sessionIdAt :: "string \<Rightarrow> string option" where
  "sessionIdAt s =
     (case strip_prefix_ci ''session'' s of
        None \<Rightarrow> None
      | Some r1 \<Rightarrow>
          (let r2 = (case r1 of
                       [] \<Rightarrow> r1
                     | c # cs \<Rightarrow> if c = CHR ''_'' \<or> c = CHR ''-'' then cs else r1)
           in case strip_prefix_ci ''id'' r2 of
                None \<Rightarrow> None
              | Some r3 \<Rightarrow>
                  if takeWhile isSeparator r3 = []
                     \<or> takeWhile isIdChar (dropWhile isSeparator r3) = []
                  then None
                  else Some (takeWhile isIdChar (dropWhile isSeparator r3))))"

text \<open>\<open>extractSessionId\<close>: the group of the leftmost match, or \<open>null\<close>.\<close>

fun extractSessionId :: "string \<Rightarrow> string option" where
  "extractSessionId [] = None"
| "extractSessionId (c # cs) =
     (case sessionIdAt (c # cs) of
        Some g \<Rightarrow> Some g
      | None \<Rightarrow> extractSessionId cs)"

definition isTaskComplete :: "string \<Rightarrow> bool" where
  "isTaskComplete out = str_includes out ''TASK_COMPLETE''"

definition needsHumanInput :: "string \<Rightarrow> bool" where
  "needsHumanInput out = str_includes out ''NEED_HUMAN_INPUT:''"

text \<open>
  The group of the leftmost match of \<open>/NEED_HUMAN_INPUT:\s*(.+)/s\<close>. With the flag \<open>s\<close>
  the dot matches every character, so the match is at the first occurrence of the marker
  and needs one character after it. \<open>\s*\<close> takes the white space after the marker and
  the group takes the rest of the output; when only white space follows, \<open>\s*\<close> gives
  its last character back to the group.
\<close>

definition questionMatch :: "string \<Rightarrow> string option" where
  "questionMatch out =
     (case after_first ''NEED_HUMAN_INPUT:'' out of
        None \<Rightarrow> None
      | Some r \<Rightarrow>
          if r = [] then None
          else if dropWhile isSpace r \<noteq> [] then Some (dropWhile isSpace r)
          else Some [last r])"

text \<open>\<open>extractQuestion\<close>: \<open>match?.[1]?.trim() || 'Agent needs human input'\<close>.\<close>

definition extractQuestion :: "string \<Rightarrow> string" where
  "extractQuestion out =
     (case questionMatch out of
        None \<Rightarrow> ''Agent needs human input''
      | Some g \<Rightarrow> if trim g = [] then ''Agent needs human input'' else trim g)"

text \<open>\<open>buildAgentPrompt\<close>: the template with the requirements document in it.\<close>

definition buildAgentPrompt :: "string \<Rightarrow> string" where
  "buildAgentPrompt prdContent =
     ''You are an autonomous coding agent. Your task is to implement the following PRD (Product Requirements Document):''
     @ [LF, LF] @ ''---'' @ [LF] @ prdContent @ [LF] @ ''---'' @ [LF, LF]
     @ ''IMPORTANT INSTRUCTIONS:'' @ [LF]
     @ ''1. Read and understand the PRD carefully'' @ [LF]
     @ ''2. Implement the requirements step by step'' @ [LF]
     @ ''3. Write tests if appropriate'' @ [LF]
     @ ''4. Run tests to verify your implementation'' @ [LF]
     @ ''5. When you are completely done, output exactly: '' @ [DQ] @ ''TASK_COMPLETE'' @ [DQ] @ [LF]
     @ ''6. If you encounter a blocker or need clarification, output: '' @ [DQ]
     @ ''NEED_HUMAN_INPUT: '' @ [DQ] @ '' followed by your question'' @ [LF, LF]
     @ ''Start by exploring the codebase to understand the project structure, then implement the requirements.''"

definition continuePrompt :: string where
  "continuePrompt =
     ''Continue working on the task. If you are done, say '' @ [DQ] @ ''TASK_COMPLETE'' @ [DQ]
     @ ''. If you need human input, say '' @ [DQ] @ ''NEED_HUMAN_INPUT: '' @ [DQ]
     @ '' followed by your question.''"

section \<open>The orchestrator (backend/src/lib/orchestrator.ts)\<close>

datatype AgentStatus = Idle | Starting | Running | Blocked | Completed | Failed

text \<open>\<open>status.toUpperCase()\<close>, the text stored in the agents table.\<close>

fun statusText :: "AgentStatus \<Rightarrow> string" where
  "statusText Idle = ''IDLE''"
| "statusText Starting = ''STARTING''"
| "statusText Running = ''RUNNING''"
| "statusText Blocked = ''BLOCKED''"
| "statusText Completed = ''COMPLETED''"
| "statusText Failed = ''FAILED''"

text \<open>
  \<open>interface AgentJob\<close>. The process handle of an iteration is the position of its spawn
  in the log of spawned commands. Dates are not modelled.
\<close>

record AgentJob =
  jobTicketId :: string
  agentId :: string
  jobStatus :: AgentStatus
  jobProcess :: "nat option"
  iterations :: nat
  lastOutput :: "string option"

record OrchestratorConfig =
  maxIterations :: nat
  timeoutMs :: nat
  claudePath :: string

definition DEFAULT_CONFIG :: OrchestratorConfig where
  "DEFAULT_CONFIG = \<lparr> maxIterations = 50, timeoutMs = 30 * 60 * 1000, claudePath = ''claude'' \<rparr>"

text \<open>
  The rows of the record store that the orchestrator reads and writes. Of a date column
  only whether it is set is kept.
\<close>

record ticket_row =
  title :: string
  description :: "string option"
  columnId :: "string option"

record agent_row =
  agentTicketId :: string
  agentStatus :: string
  iterationCount :: nat
  agentMaxIterations :: nat
  completedAt :: bool

datatype sender = Human | Agent | System

record message_row =
  msgId :: string
  msgTicketId :: string
  content :: string
  senderType :: sender

text \<open>What \<open>broadcast\<close> and \<open>broadcastToTicket\<close> are called with.\<close>

datatype event =
    QueueUpdated "string list" "string option"
  | AgentStarted string string
  | AgentProgress string string nat nat
  | AgentCompleted string string
  | AgentBlocked string string string
  | AgentFailed string string string
  | TicketUpdated string string
  | MessageCreated string string sender

text \<open>
  One bounded exchange with the worker, as the loop sees it: \<open>Bun.spawn\<close> throws, or
  reading the streams throws, or the exchange ends with the text of standard output, the
  text of standard error and an exit code. The worker is outside the program: it is a
  function of the iteration number, the working directory and the command line.
\<close>

datatype iter_result =
    SpawnThrows js_error
  | StreamThrows js_error
  | Exchange string string int

type_synonym worker = "nat \<Rightarrow> string \<Rightarrow> string list \<Rightarrow> iter_result"

text \<open>
  \<open>processQueue\<close> is suspended while \<open>startAgent\<close> runs. \<open>Taken t\<close>: the ticket has been
  shifted off the queue and \<open>startAgent\<close> has been called; \<open>Started t a\<close>: \<open>startAgent\<close>
  has created the job with agent \<open>a\<close> and is about to create the workspace.
\<close>

datatype drain_phase = Taken string | Started string string

text \<open>
  The fields of the \<open>Orchestrator\<close> object except its configuration, which is assigned in
  the constructor only and is passed to the functions as \<open>cfg\<close>; the tables of the record
  store; the events sent; the state of the workspace manager; the commands spawned and the
  processes killed; and the number of identifiers drawn from \<open>nanoid()\<close>, which returns a
  new identifier at each call: the model numbers them.
\<close>

record world =
  currentJob :: "AgentJob option"
  queue :: "string list"
  isProcessing :: bool
  inflight :: "drain_phase option"
  tickets :: "string \<rightharpoonup> ticket_row"
  prds :: "(string \<times> string) list"
  agents :: "string \<rightharpoonup> agent_row"
  messages :: "message_row list"
  events :: "event list"
  git :: git_state
  spawned :: "(string \<times> string list) list"
  killedProcs :: "nat list"
  nextId :: nat

definition nanoid :: "world \<Rightarrow> string \<times> world" where
  "nanoid w = (''id'' @ string_of_nat (nextId w), w\<lparr>nextId := Suc (nextId w)\<rparr>)"

definition broadcast :: "event \<Rightarrow> world \<Rightarrow> world" where
  "broadcast ev w = w\<lparr>events := events w @ [ev]\<rparr>"

subsection \<open>Helper methods for database updates\<close>

definition updateAgentStatus :: "string \<Rightarrow> AgentStatus \<Rightarrow> nat option \<Rightarrow> world \<Rightarrow> world" where
  "updateAgentStatus a st iters w =
     (case agents w a of
        None \<Rightarrow> w
      | Some r \<Rightarrow>
          w\<lparr>agents := (agents w)(a \<mapsto>
               r\<lparr> agentStatus := statusText st,
                  iterationCount := (case iters of None \<Rightarrow> iterationCount r | Some i \<Rightarrow> i),
                  completedAt := (if st = Completed \<or> st = Failed then True
                                  else completedAt r) \<rparr>)\<rparr>)"

definition updateTicketColumn :: "string \<Rightarrow> string \<Rightarrow> world \<Rightarrow> world" where
  "updateTicketColumn t col w =
     broadcast (TicketUpdated t col)
       (case tickets w t of
          None \<Rightarrow> w
        | Some r \<Rightarrow> w\<lparr>tickets := (tickets w)(t \<mapsto> r\<lparr>columnId := Some col\<rparr>)\<rparr>)"

definition addMessage :: "sender \<Rightarrow> string \<Rightarrow> string \<Rightarrow> world \<Rightarrow> world" where
  "addMessage sd t text w =
     (let (i, w1) = nanoid w in
      broadcast (MessageCreated t text sd)
        (w1\<lparr>messages := messages w1 @
               [\<lparr>msgId = i, msgTicketId = t, content = text, senderType = sd\<rparr>]\<rparr>))"

definition addSystemMessage :: "string \<Rightarrow> string \<Rightarrow> world \<Rightarrow> world" where
  "addSystemMessage = addMessage System"

definition addAgentMessage :: "string \<Rightarrow> string \<Rightarrow> world \<Rightarrow> world" where
  "addAgentMessage = addMessage Agent"

definition addHumanMessage :: "string \<Rightarrow> string \<Rightarrow> world \<Rightarrow> world" where
  "addHumanMessage = addMessage Human"

subsection \<open>The ends of a job\<close>

definition completeAgent :: "string \<Rightarrow> string \<Rightarrow> string \<Rightarrow> world \<Rightarrow> world" where
  "completeAgent t a out w =
     (let w1 = updateAgentStatus a Completed None w;
          w2 = updateTicketColumn t ''review'' w1;
          w3 = addSystemMessage t ''Agent completed the task. Please review the changes.'' w2;
          w4 = w3\<lparr>git := snd (unlock t (git w3))\<rparr>;
          w5 = broadcast (AgentCompleted t a) w4
      in w5\<lparr>currentJob := None\<rparr>)"

definition blockAgent :: "string \<Rightarrow> string \<Rightarrow> string \<Rightarrow> world \<Rightarrow> world" where
  "blockAgent t a question w =
     (let w1 = updateAgentStatus a Blocked None w;
          w2 = updateTicketColumn t ''blocked'' w1;
          w3 = addAgentMessage t question w2
      in broadcast (AgentBlocked t a question) w3)"

definition failAgent :: "string \<Rightarrow> string \<Rightarrow> string \<Rightarrow> world \<Rightarrow> world" where
  "failAgent t a err w =
     (let w1 = updateAgentStatus a Failed None w;
          w2 = updateTicketColumn t ''blocked'' w1;
          w3 = addSystemMessage t (''Agent failed: '' @ err) w2;
          w4 = w3\<lparr>git := snd (remove t True (git w3))\<rparr>;
          w5 = broadcast (AgentFailed t a err) w4
      in w5\<lparr>currentJob := None\<rparr>)"

subsection \<open>The continuation loop\<close>

definition getPRDContent :: "string \<Rightarrow> world \<Rightarrow> string" where
  "getPRDContent t w =
     (case tickets w t of
        None \<Rightarrow> ''No PRD content available''
      | Some tk \<Rightarrow>
          (let fallback = ''# '' @ title tk @ [LF, LF] @
                 (case description tk of
                    None \<Rightarrow> ''No description provided''
                  | Some d \<Rightarrow> if d = [] then ''No description provided'' else d)
           in case map_of (prds w) t of
                None \<Rightarrow> fallback
              | Some c \<Rightarrow> if c = [] then fallback else c))"

definition claudeArgs :: "OrchestratorConfig \<Rightarrow> string \<Rightarrow> string option \<Rightarrow> string list" where
  "claudeArgs cfg prompt sid =
     [claudePath cfg, ''--print'', ''--output-format'', ''stream-json'', ''--max-turns'', ''1'']
     @ (case sid of
          Some s \<Rightarrow> [''--resume'', s, ''--prompt'', continuePrompt]
        | None \<Rightarrow> [''--prompt'', prompt])"

text \<open>
  What \<open>streamOutput\<close> returns: standard output, then standard error under a heading when
  it is not empty. The relay of the parsed lines to the observers of the ticket leaves
  the returned text and the state below untouched and is not modelled.
\<close>

definition streamOutput :: "string \<Rightarrow> string \<Rightarrow> string" where
  "streamOutput out err = out @ (if err = [] then [] else [LF] @ ''[STDERR]'' @ [LF] @ err)"

definition setProcess :: "nat \<Rightarrow> world \<Rightarrow> world" where
  "setProcess p w = w\<lparr>currentJob := map_option (\<lambda>j. j\<lparr>jobProcess := Some p\<rparr>) (currentJob w)\<rparr>"

definition setLastOutput :: "string \<Rightarrow> world \<Rightarrow> world" where
  "setLastOutput out w =
     w\<lparr>currentJob := map_option (\<lambda>j. j\<lparr>lastOutput := Some out\<rparr>) (currentJob w)\<rparr>"

definition iterationErrorText :: "nat \<Rightarrow> js_error \<Rightarrow> string" where
  "iterationErrorText i e = ''Error in iteration '' @ string_of_nat i @ '': '' @ render e"

text \<open>
  What one turn of the \<open>while\<close> loop of \<open>runAgentLoop\<close> ends with: the function returns,
  or the loop goes on with a session identifier.
\<close>

datatype step = Return world | Next "string option" world

text \<open>
  The body of the loop for iteration number \<open>i\<close>. The assignment to
  \<open>this.currentJob!.iterations\<close> stands outside the \<open>try\<close> and throws when there is no
  current job; the errors of the spawn and of the streams are caught inside the body and
  recorded as a system message.
\<close>

definition iteration ::
  "OrchestratorConfig \<Rightarrow> worker \<Rightarrow> string \<Rightarrow> string \<Rightarrow> string \<Rightarrow> string \<Rightarrow> string option
     \<Rightarrow> nat \<Rightarrow> world \<Rightarrow> js_error + step" where
  "iteration cfg wk t a wtPath prompt sid i w =
     (case currentJob w of
        None \<Rightarrow> Inl (TypeError ''null is not an object'')
      | Some job \<Rightarrow>
          (let w1 = w\<lparr>currentJob := Some (job\<lparr>iterations := i\<rparr>)\<rparr>;
               w2 = updateAgentStatus a Running (Some i) w1;
               w3 = broadcast (AgentProgress t a i (maxIterations cfg)) w2;
               args = claudeArgs cfg prompt sid;
               proc = length (spawned w3);
               w4 = w3\<lparr>spawned := spawned w3 @ [(wtPath, args)]\<rparr>
           in case wk i wtPath args of
                SpawnThrows e \<Rightarrow>
                  Inr (Next sid (addSystemMessage t (iterationErrorText i e) w4))
              | StreamThrows e \<Rightarrow>
                  Inr (Next sid (addSystemMessage t (iterationErrorText i e) (setProcess proc w4)))
              | Exchange so se code \<Rightarrow>
                  (let out = streamOutput so se;
                       w5 = setLastOutput out (setProcess proc w4);
                       sid' = (case extractSessionId out of Some n \<Rightarrow> Some n | None \<Rightarrow> sid)
                   in if isTaskComplete out then Inr (Return (completeAgent t a out w5))
                      else if needsHumanInput out
                      then Inr (Return (blockAgent t a (extractQuestion out) w5))
                      else Inr (Next sid' w5))))"

definition maxIterationsText :: "OrchestratorConfig \<Rightarrow> string" where
  "maxIterationsText cfg =
     ''Reached maximum iterations ('' @ string_of_nat (maxIterations cfg)
     @ ''). Please review progress and provide guidance.''"

text \<open>
  The \<open>while\<close> loop with its variables \<open>sessionId\<close> and \<open>iterations\<close>, and the call of
  \<open>blockAgent\<close> after it. The result is the thrown error, if any, and the state reached.
  The pause of one second between two iterations changes nothing but the time.
\<close>

function agentLoop ::
  "OrchestratorConfig \<Rightarrow> worker \<Rightarrow> string \<Rightarrow> string \<Rightarrow> string \<Rightarrow> string \<Rightarrow> string option
     \<Rightarrow> nat \<Rightarrow> world \<Rightarrow> js_error option \<times> world" where
  "agentLoop cfg wk t a wtPath prompt sid i w =
     (if i < maxIterations cfg
      then (case iteration cfg wk t a wtPath prompt sid (Suc i) w of
              Inl e \<Rightarrow> (Some e, w)
            | Inr (Return w') \<Rightarrow> (None, w')
            | Inr (Next sid' w') \<Rightarrow> agentLoop cfg wk t a wtPath prompt sid' (Suc i) w')
      else (None, blockAgent t a (maxIterationsText cfg) w))"
  by pat_completeness auto
termination
  by (relation "measure (\<lambda>(cfg, wk, t, a, wtPath, prompt, sid, i, w). maxIterations cfg - i)") auto

declare agentLoop.simps [simp del]

definition runAgentLoop ::
  "OrchestratorConfig \<Rightarrow> worker \<Rightarrow> string \<Rightarrow> string \<Rightarrow> string \<Rightarrow> world
     \<Rightarrow> js_error option \<times> world" where
  "runAgentLoop cfg wk t a wtPath w =
     agentLoop cfg wk t a wtPath (buildAgentPrompt (getPRDContent t w)) None 0 w"

subsection \<open>Starting a job\<close>

text \<open>
  \<open>startAgent\<close> up to the event "agent.started": the ticket is looked up, the agent row is
  inserted, and the job becomes the current job. The result is the agent identifier.
\<close>

definition startAgent_init ::
  "OrchestratorConfig \<Rightarrow> string \<Rightarrow> world \<Rightarrow> js_error + (string \<times> world)" where
  "startAgent_init cfg t w =
     (case tickets w t of
        None \<Rightarrow> Inl (Error (''Ticket '' @ t @ '' not found''))
      | Some tk \<Rightarrow>
          (let (a, w1) = nanoid w;
               w2 = w1\<lparr>agents := (agents w1)(a \<mapsto>
                      \<lparr> agentTicketId = t, agentStatus = ''STARTING'', iterationCount = 0,
                        agentMaxIterations = maxIterations cfg, completedAt = False \<rparr>)\<rparr>;
               w3 = w2\<lparr>currentJob := Some
                      \<lparr> jobTicketId = t, agentId = a, jobStatus = Starting, jobProcess = None,
                        iterations = 0, lastOutput = None \<rparr>\<rparr>
           in Inr (a, broadcast (AgentStarted t a) w3)))"

text \<open>
  The \<open>try\<close> block of \<open>startAgent\<close> with its \<open>catch\<close>: the workspace is created and the
  loop is run; an error of either goes to \<open>failAgent\<close>.
\<close>

definition startAgent_run ::
  "OrchestratorConfig \<Rightarrow> worker \<Rightarrow> create_env \<Rightarrow> string \<Rightarrow> string \<Rightarrow> world \<Rightarrow> world" where
  "startAgent_run cfg wk env t a w =
     (case create env t ''main'' (git w) of
        (Inl e, g1) \<Rightarrow> failAgent t a (render e) (w\<lparr>git := g1\<rparr>)
      | (Inr wt, g1) \<Rightarrow>
          (let w1 = addSystemMessage t (''Agent started. Working in branch: '' @ branch wt)
                      (w\<lparr>git := g1\<rparr>)
           in case runAgentLoop cfg wk t a (path wt) w1 of
                (Some e, w2) \<Rightarrow> failAgent t a (render e) w2
              | (None, w2) \<Rightarrow> w2))"

definition startAgent ::
  "OrchestratorConfig \<Rightarrow> worker \<Rightarrow> create_env \<Rightarrow> string \<Rightarrow> world \<Rightarrow> js_error option \<times> world" where
  "startAgent cfg wk env t w =
     (case startAgent_init cfg t w of
        Inl e \<Rightarrow> (Some e, w)
      | Inr (a, w1) \<Rightarrow> (None, startAgent_run cfg wk env t a w1))"

subsection \<open>The queue\<close>

text \<open>
  \<open>processQueue\<close> up to its \<open>await\<close>: unless a drain is under way or the queue is empty,
  the first ticket is shifted off the queue and \<open>startAgent\<close> is called for it.
\<close>

definition processQueue_take :: "world \<Rightarrow> world" where
  "processQueue_take w =
     (if isProcessing w \<or> queue w = [] then w
      else w\<lparr> isProcessing := True, queue := tl (queue w),
              inflight := Some (Taken (hd (queue w))) \<rparr>)"

text \<open>
  \<open>processQueue\<close> after its \<open>await\<close>: an error thrown by \<open>startAgent\<close> moves the ticket to
  the blocked column and is recorded; the drain is over; and when the queue is not empty
  \<open>processQueue\<close> starts again.
\<close>

definition processQueue_done :: "string \<Rightarrow> js_error option \<Rightarrow> world \<Rightarrow> world" where
  "processQueue_done t thrown w =
     (let w1 = (case thrown of
                  None \<Rightarrow> w
                | Some e \<Rightarrow>
                    addSystemMessage t (''Agent failed to start: '' @ render e)
                      (updateTicketColumn t ''blocked'' w));
          w2 = w1\<lparr>isProcessing := False, inflight := None\<rparr>
      in if length (queue w2) > 0 then processQueue_take w2 else w2)"

definition currentTicketId :: "world \<Rightarrow> string option" where
  "currentTicketId w = map_option jobTicketId (currentJob w)"

definition enqueue :: "string \<Rightarrow> world \<Rightarrow> world" where
  "enqueue t w =
     (if t \<in> set (queue w) then w
      else (let w1 = w\<lparr>queue := queue w @ [t]\<rparr>;
                w2 = broadcast (QueueUpdated (queue w1) (currentTicketId w1)) w1
            in processQueue_take w2))"

definition dequeue :: "string \<Rightarrow> world \<Rightarrow> world" where
  "dequeue t w =
     (let w1 = w\<lparr>queue := filter (\<lambda>i. i \<noteq> t) (queue w)\<rparr>
      in broadcast (QueueUpdated (queue w1) (currentTicketId w1)) w1)"

subsection \<open>Resuming and killing\<close>

definition resumeAgent :: "string \<Rightarrow> string \<Rightarrow> world \<Rightarrow> js_error option \<times> world" where
  "resumeAgent t response w =
     (case currentJob w of
        None \<Rightarrow> (Some (Error (''No blocked agent found for ticket '' @ t)), w)
      | Some job \<Rightarrow>
          if jobTicketId job \<noteq> t
          then (Some (Error (''No blocked agent found for ticket '' @ t)), w)
          else (None, enqueue t ((addHumanMessage t response w)\<lparr>currentJob := None\<rparr>)))"

definition killAgent :: "string \<Rightarrow> world \<Rightarrow> js_error option \<times> world" where
  "killAgent t w =
     (case currentJob w of
        None \<Rightarrow> (Some (Error (''No active agent found for ticket '' @ t)), w)
      | Some job \<Rightarrow>
          if jobTicketId job \<noteq> t
          then (Some (Error (''No active agent found for ticket '' @ t)), w)
          else (let w1 = (case jobProcess job of
                            None \<Rightarrow> w
                          | Some p \<Rightarrow> w\<lparr>killedProcs := killedProcs w @ [p]\<rparr>)
                in (None, failAgent t (agentId job) ''Agent killed by user'' w1)))"

definition getStatus :: "world \<Rightarrow> string list \<times> AgentJob option" where
  "getStatus w = (queue w, map_option (\<lambda>j. j\<lparr>jobProcess := None\<rparr>) (currentJob w))"

text \<open>
  The route \<open>POST /resume/:ticketId\<close> of backend/src/routes/agents.ts: the status code and
  the body of the answer. A missing or empty \<open>response\<close> is answered with 400 before the
  orchestrator is called; an error thrown by \<open>resumeAgent\<close> is answered with 400 too.
\<close>

datatype http_body = MessageBody string string | ErrorBody string

definition resumeRoute ::
  "string \<Rightarrow> string option \<Rightarrow> world \<Rightarrow> (nat \<times> http_body) \<times> world" where
  "resumeRoute t response w =
     (case response of
        None \<Rightarrow> ((400, ErrorBody ''Response is required''), w)
      | Some r \<Rightarrow>
          if r = [] then ((400, ErrorBody ''Response is required''), w)
          else (case resumeAgent t r w of
                  (None, w') \<Rightarrow> ((200, MessageBody ''Agent resumed'' t), w')
                | (Some e, w') \<Rightarrow> ((400, ErrorBody (render e)), w')))"

subsection \<open>Interleaving of requests with the drain\<close>

text \<open>
  The orchestrator runs on one thread, and a request is served whenever the drain waits.
  An operation is one stretch of code that runs without interruption: a call of
  \<open>enqueue\<close>, \<open>dequeue\<close>, \<open>resumeAgent\<close> or \<open>killAgent\<close>, or the next stretch of the
  suspended drain: \<open>StartInit\<close> takes \<open>startAgent\<close> up to the creation of the job,
  \<open>StartRun\<close> runs the workspace creation and the loop with the given worker and
  environment and then finishes \<open>processQueue\<close>.
\<close>

datatype operation =
    Enqueue string
  | Dequeue string
  | Resume string string
  | Kill string
  | StartInit
  | StartRun worker create_env

fun exec :: "OrchestratorConfig \<Rightarrow> world \<Rightarrow> operation \<Rightarrow> world" where
  "exec cfg w (Enqueue t) = enqueue t w"
| "exec cfg w (Dequeue t) = dequeue t w"
| "exec cfg w (Resume t r) = snd (resumeAgent t r w)"
| "exec cfg w (Kill t) = snd (killAgent t w)"
| "exec cfg w StartInit =
     (case inflight w of
        Some (Taken t) \<Rightarrow>
          (case startAgent_init cfg t w of
             Inl e \<Rightarrow> processQueue_done t (Some e) w
           | Inr (a, w1) \<Rightarrow> w1\<lparr>inflight := Some (Started t a)\<rparr>)
      | _ \<Rightarrow> w)"
| "exec cfg w (StartRun wk env) =
     (case inflight w of
        Some (Started t a) \<Rightarrow> processQueue_done t None (startAgent_run cfg wk env t a w)
      | _ \<Rightarrow> w)"

definition run :: "OrchestratorConfig \<Rightarrow> operation list \<Rightarrow> world \<Rightarrow> world" where
  "run cfg ops w = foldl (exec cfg) w ops"

text \<open>The state of a server that has started, over a given record store and repository.\<close>

definition initOrchestrator ::
  "(string \<rightharpoonup> ticket_row) \<Rightarrow> (string \<times> string) list \<Rightarrow> git_state \<Rightarrow> world" where
  "initOrchestrator tks ps g =
     \<lparr> currentJob = None, queue = [], isProcessing = False, inflight = None,
       tickets = tks, prds = ps, agents = Map.empty, messages = [], events = [],
       git = g, spawned = [], killedProcs = [], nextId = 0 \<rparr>"

section \<open>Notions used to state the properties\<close>

text \<open>The events "agent.progress", one of which is sent at the start of each iteration.\<close>

fun isProgress :: "event \<Rightarrow> bool" where
  "isProgress (AgentProgress t a i m) = True"
| "isProgress ev = False"

text \<open>
  An exchange without a sentinel: its collected output holds neither the completion marker
  nor the need-input marker. An exchange that throws has no output.
\<close>

definition sentinelFree :: "iter_result \<Rightarrow> bool" where
  "sentinelFree r =
     (case r of
        Exchange so se code \<Rightarrow>
          \<not> isTaskComplete (streamOutput so se) \<and> \<not> needsHumanInput (streamOutput so se)
      | _ \<Rightarrow> True)"

text \<open>
  The directory of a ticket's workspace, when it exists, is a working tree that git has
  registered. The manager creates and removes the two together.
\<close>

definition workspaceIsWorktree :: "git_state \<Rightarrow> string \<Rightarrow> bool" where
  "workspaceIsWorktree g t =
     (existsSync (worktreePathOf g t) g \<longrightarrow> registered g (worktreePathOf g t) \<noteq> None)"

text \<open>The state that a step of the loop leaves.\<close>

fun stateOf :: "step \<Rightarrow> world" where
  "stateOf (Return w) = w"
| "stateOf (Next sid w) = w"

text \<open>
  The output holds the need-input marker, and after its first occurrence there is nothing
  or only white space.
\<close>

definition onlySpaceFollows :: "string \<Rightarrow> bool" where
  "onlySpaceFollows out =
     (case after_first ''NEED_HUMAN_INPUT:'' out of
        None \<Rightarrow> False
      | Some rest \<Rightarrow> list_all isSpace rest)"

section \<open>Example states\<close>

text \<open>
  A server that has started over a repository without workspaces and a record store with
  the ticket T1, a budget of three iterations, an environment in which every git command
  of \<open>create\<close> goes through, and workers that answer every exchange in the same way.
\<close>

definition exTicket :: ticket_row where
  "exTicket = \<lparr> title = ''Implement X'', description = None, columnId = Some ''in-progress'' \<rparr>"

definition exGit :: git_state where
  "exGit = \<lparr> worktreesDir = ''/w'', dirs = {}, registered = Map.empty, branches = Map.empty \<rparr>"

definition exWorld :: world where
  "exWorld = initOrchestrator [''T1'' \<mapsto> exTicket] [] exGit"

definition exCfg :: OrchestratorConfig where
  "exCfg = DEFAULT_CONFIG\<lparr>maxIterations := 3\<rparr>"

definition exEnv :: create_env where
  "exEnv = \<lparr> fetchFails = False, addOutcome = AddProceeds, logOutcome = LogLatest ''abc'' \<rparr>"

definition sayingWorker :: "string \<Rightarrow> worker" where
  "sayingWorker out = (\<lambda>i d args. Exchange out [] 0)"

text \<open>The job of T1 has been created and \<open>startAgent\<close> is about to create the workspace.\<close>

definition exStarted :: world where
  "exStarted = run exCfg [Enqueue ''T1'', StartInit] exWorld"

section \<open>The ring buffer\<close>

lemma trimBuffer_drop: "trimBuffer m xs = drop (length xs - m) xs"
proof (induction xs)
  case Nil
  show ?case by simp
next
  case (Cons x xs)
  show ?case
  proof (cases "length (x # xs) > m")
    case True
    then have "length (x # xs) - m = Suc (length xs - m)" by simp
    with True Cons show ?thesis by simp
  next
    case False
    then show ?thesis by simp
  qed
qed

lemma split_lines_nonempty: "split_lines d \<noteq> []"
  by (induction d) auto

lemma pushAndTrim_buffer:
  "outputBuffer (pushAndTrim s d) =
     drop (length (outputBuffer s @ split_lines d) - maxBufferLines s)
          (outputBuffer s @ split_lines d)"
  by (simp add: pushAndTrim_def trimBuffer_drop)

lemma pushAndTrim_max: "maxBufferLines (pushAndTrim s d) = maxBufferLines s"
  by (simp add: pushAndTrim_def)

lemma drop_suffix_again:
  "drop (length (drop (length xs - m) xs @ ys) - m) (drop (length xs - m) xs @ ys)
     = drop (length (xs @ ys) - m) (xs @ ys)"
proof (cases "length xs \<le> m")
  case True
  then show ?thesis by simp
next
  case False
  then have k: "length xs - (length xs - m) = m" by simp
  have "drop (length (xs @ ys) - m) (xs @ ys)
          = drop (length ys + (length xs - m)) (xs @ ys)"
    using False by (simp add: add.commute)
  also have "\<dots> = drop (length ys) (drop (length xs - m) (xs @ ys))"
    by (simp only: drop_drop)
  also have "\<dots> = drop (length ys) (drop (length xs - m) xs @ ys)"
    by simp
  finally show ?thesis using k by simp
qed

lemma foldl_pushAndTrim_max:
  "maxBufferLines (foldl pushAndTrim s chunks) = maxBufferLines s"
  by (induction chunks arbitrary: s) (simp_all add: pushAndTrim_max)

lemma foldl_pushAndTrim_buffer:
  "chunks \<noteq> [] \<Longrightarrow>
   outputBuffer (foldl pushAndTrim s chunks) =
     drop (length (outputBuffer s @ concat (map split_lines chunks)) - maxBufferLines s)
          (outputBuffer s @ concat (map split_lines chunks))"
proof (induction chunks arbitrary: s)
  case Nil
  then show ?case by simp
next
  case (Cons c cs)
  show ?case
  proof (cases "cs = []")
    case True
    then show ?thesis by (simp add: pushAndTrim_buffer)
  next
    case False
    have "outputBuffer (foldl pushAndTrim (pushAndTrim s c) cs) =
            drop (length (outputBuffer (pushAndTrim s c) @ concat (map split_lines cs))
                    - maxBufferLines s)
                 (outputBuffer (pushAndTrim s c) @ concat (map split_lines cs))"
      using Cons.IH [OF False, of "pushAndTrim s c"] by (simp add: pushAndTrim_max)
    also have "\<dots> = drop (length ((outputBuffer s @ split_lines c) @ concat (map split_lines cs))
                          - maxBufferLines s)
                       ((outputBuffer s @ split_lines c) @ concat (map split_lines cs))"
      unfolding pushAndTrim_buffer by (rule drop_suffix_again)
    finally show ?thesis by simp
  qed
qed

lemma length_split_lines: "length (split_lines d) = Suc (length (filter (\<lambda>c. c = LF) d))"
proof (induction d)
  case Nil
  show ?case by simp
next
  case (Cons c cs)
  have "length (tl (split_lines cs)) = length (split_lines cs) - 1" by simp
  with Cons split_lines_nonempty [of cs] show ?case by (cases "split_lines cs") auto
qed

text \<open>
  A chunk with 65536 line feeds or more makes \<open>bufferOutput\<close> throw, and the session is
  not changed.
\<close>

lemma bufferOutput_throws:
  "spreadLimit \<le> length (filter (\<lambda>c. c = LF) d) \<Longrightarrow>
   bufferOutput s d = Inl (RangeError ''Maximum call stack size exceeded.'')"
  by (simp add: bufferOutput_def length_split_lines)

lemma bufferOutput_throws_at_limit:
  "bufferOutput s (replicate 65536 LF) = Inl (RangeError ''Maximum call stack size exceeded.'')"
  by (rule bufferOutput_throws) (simp add: spreadLimit_def)

lemma bufferOutput_returns:
  "length (split_lines d) \<le> spreadLimit \<Longrightarrow> bufferOutput s d = Inr (pushAndTrim s d)"
  by (simp add: bufferOutput_def)

lemma bufferOutputs_within:
  "withinSpreadLimit chunks \<Longrightarrow> bufferOutputs s chunks = Inr (foldl pushAndTrim s chunks)"
  by (induction chunks arbitrary: s) (simp_all add: withinSpreadLimit_def bufferOutput_returns)

text \<open>
  Claim C3. A sequence of chunks is appended with \<open>bufferOutput\<close>, each chunk with few
  enough lines for the push to return, and the appended lines number more than the
  session's maximum. Then every call returns, the buffer holds exactly the maximum number
  of lines, and they are the most recent ones in their order: the appended lines without
  their oldest part. The same holds in a session as \<open>getOrCreateTerminalSession\<close> creates
  it, where the maximum is 1000.
\<close>

theorem ring_buffer_keeps_most_recent:
  assumes "withinSpreadLimit chunks"
      and "length (concat (map split_lines chunks)) > maxBufferLines s"
  shows "\<exists>s'. bufferOutputs s chunks = Inr s'
       \<and> length (outputBuffer s') = maxBufferLines s
       \<and> outputBuffer s' =
           drop (length (concat (map split_lines chunks)) - maxBufferLines s)
                (concat (map split_lines chunks))
       \<and> maxBufferLines (fst (getOrCreateTerminalSession t
            \<lparr>sessions = Map.empty, inbox = (\<lambda>_. []), closed = {}, killed = []\<rparr>)) = 1000"
proof -
  let ?new = "concat (map split_lines chunks)"
  let ?s' = "foldl pushAndTrim s chunks"
  from assms(2) have ne: "chunks \<noteq> []" by auto
  have r: "bufferOutputs s chunks = Inr ?s'" by (rule bufferOutputs_within [OF assms(1)])
  have b: "outputBuffer ?s' =
             drop (length (outputBuffer s @ ?new) - maxBufferLines s) (outputBuffer s @ ?new)"
    by (rule foldl_pushAndTrim_buffer [OF ne])
  have "length (outputBuffer s @ ?new) - maxBufferLines s
          = length (outputBuffer s) + (length ?new - maxBufferLines s)"
    using assms(2) by simp
  then have e: "outputBuffer ?s' = drop (length ?new - maxBufferLines s) ?new"
    using b by (simp add: add.commute)
  have l: "length (drop (length ?new - maxBufferLines s) ?new) = maxBufferLines s"
    using assms(2) by simp
  have m: "maxBufferLines (fst (getOrCreateTerminalSession t
            \<lparr>sessions = Map.empty, inbox = (\<lambda>_. []), closed = {}, killed = []\<rparr>)) = 1000"
    by (simp add: getOrCreateTerminalSession_def newSession_def)
  have l': "length (outputBuffer ?s') = maxBufferLines s" using e l by simp
  show ?thesis
    by (rule exI [of _ ?s']) (intro conjI r l' e m)
qed

theorem ring_buffer_keeps_most_recent_witness:
  "map_sum id outputBuffer (bufferOutputs
       \<lparr> ticketId = ''T1'', process = None, clients = {}, outputBuffer = [''old''],
         maxBufferLines = 2, status = SessionRunning, startedAt = None, error = None \<rparr>
       [''a'' @ [LF] @ ''b'', ''c'']) = Inr [''b'', ''c'']"
proof -
  let ?s = "\<lparr> ticketId = ''T1'', process = None, clients = {}, outputBuffer = [''old''],
         maxBufferLines = 2, status = SessionRunning, startedAt = None, error = None \<rparr>"
  have w: "withinSpreadLimit [''a'' @ [LF] @ ''b'', ''c'']"
    by (simp add: withinSpreadLimit_def spreadLimit_def LF_def)
  have h: "length (concat (map split_lines [''a'' @ [LF] @ ''b'', ''c''])) > maxBufferLines ?s"
    by (simp add: LF_def)
  have b: "bufferOutputs ?s [''a'' @ [LF] @ ''b'', ''c''] = Inr (?s\<lparr>outputBuffer := [''b'', ''c'']\<rparr>)"
    by (simp add: bufferOutput_def pushAndTrim_def spreadLimit_def LF_def)
  show ?thesis
    using ring_buffer_keeps_most_recent [OF w h] b by auto
qed

section \<open>Attaching and detaching observers\<close>

text \<open>
  The entries of the buffer are the pieces between line feeds, so the replay, which joins
  them with nothing in between, is the buffered text without its line feeds.
\<close>

lemma split_lines_hd_tl: "split_lines d = hd (split_lines d) # tl (split_lines d)"
  using split_lines_nonempty [of d] by simp

lemma concat_split_lines: "concat (split_lines d) = filter (\<lambda>c. c \<noteq> LF) d"
proof (induction d)
  case Nil
  show ?case by simp
next
  case (Cons c cs)
  have "concat (split_lines cs) = hd (split_lines cs) @ concat (tl (split_lines cs))"
    by (subst split_lines_hd_tl) simp
  with Cons show ?case by simp
qed

lemma pushAndTrim_clients_update:
  "pushAndTrim (s\<lparr>clients := X\<rparr>) d = (pushAndTrim s d)\<lparr>clients := X\<rparr>"
  by (simp add: pushAndTrim_def)

lemma pushAndTrim_clients: "clients (pushAndTrim s d) = clients s"
  by (simp add: pushAndTrim_def)

lemma foldl_pushAndTrim_clients_update:
  "foldl pushAndTrim (s\<lparr>clients := X\<rparr>) cs = (foldl pushAndTrim s cs)\<lparr>clients := X\<rparr>"
  by (induction cs arbitrary: s) (simp_all add: pushAndTrim_clients_update)

lemma foldl_pushAndTrim_clients: "clients (foldl pushAndTrim s cs) = clients s"
  by (induction cs arbitrary: s) (simp_all add: pushAndTrim_clients)

lemma stdoutChunk_within:
  "sessions w t = Some s \<Longrightarrow> length (split_lines c) \<le> spreadLimit \<Longrightarrow>
   stdoutChunk t c w =
     Some (broadcastToSession t c (w\<lparr>sessions := (sessions w)(t \<mapsto> pushAndTrim s c)\<rparr>))"
  by (simp add: stdoutChunk_def bufferOutput_returns)

text \<open>
  A chunk that makes \<open>bufferOutput\<close> throw ends the relay: neither it nor a chunk after
  it is buffered or sent.
\<close>

lemma stdoutChunks_end_on_throw:
  "sessions w t = Some s \<Longrightarrow> spreadLimit \<le> length (filter (\<lambda>x. x = LF) c) \<Longrightarrow>
   stdoutChunks t (c # cs) w = w"
  by (simp add: stdoutChunk_def bufferOutput_throws)

lemma stdoutChunk_closed: "stdoutChunk t c w = Some w' \<Longrightarrow> closed w' = closed w"
  by (auto simp add: stdoutChunk_def broadcastToSession_def split: option.splits sum.splits)

lemma stdoutChunk_killed: "stdoutChunk t c w = Some w' \<Longrightarrow> killed w' = killed w"
  by (auto simp add: stdoutChunk_def broadcastToSession_def split: option.splits sum.splits)

lemma stdoutChunks_closed: "closed (stdoutChunks t cs w) = closed w"
proof (induction cs arbitrary: w)
  case Nil
  show ?case by simp
next
  case (Cons c cs)
  show ?case
  proof (cases "stdoutChunk t c w")
    case None
    then show ?thesis by simp
  next
    case (Some w')
    then show ?thesis using Cons [of w'] stdoutChunk_closed [OF Some] by simp
  qed
qed

lemma stdoutChunks_killed: "killed (stdoutChunks t cs w) = killed w"
proof (induction cs arbitrary: w)
  case Nil
  show ?case by simp
next
  case (Cons c cs)
  show ?case
  proof (cases "stdoutChunk t c w")
    case None
    then show ?thesis by simp
  next
    case (Some w')
    then show ?thesis using Cons [of w'] stdoutChunk_killed [OF Some] by simp
  qed
qed

lemma stdoutChunks_session:
  "sessions w t = Some s \<Longrightarrow> withinSpreadLimit cs \<Longrightarrow>
   sessions (stdoutChunks t cs w) t =
     Some ((foldl pushAndTrim s cs)
             \<lparr>clients := (if cs = [] then clients s else clients s - closed w)\<rparr>)"
proof (induction cs arbitrary: w s)
  case Nil
  then show ?case by simp
next
  case (Cons c cs)
  have b: "length (split_lines c) \<le> spreadLimit" and rest: "withinSpreadLimit cs"
    using Cons.prems(2) by (simp_all add: withinSpreadLimit_def)
  let ?w1 = "broadcastToSession t c (w\<lparr>sessions := (sessions w)(t \<mapsto> pushAndTrim s c)\<rparr>)"
  let ?s1 = "(pushAndTrim s c)\<lparr>clients := clients s - closed w\<rparr>"
  have st: "stdoutChunk t c w = Some ?w1" by (rule stdoutChunk_within [OF Cons.prems(1) b])
  have s1: "sessions ?w1 t = Some ?s1"
    by (simp add: broadcastToSession_def pushAndTrim_clients)
  have c1: "closed ?w1 = closed w" by (simp add: broadcastToSession_def)
  have d: "clients s - closed w - closed w = clients s - closed w" by auto
  show ?case
    using Cons.IH [OF s1 rest] st
    by (simp add: c1 foldl_pushAndTrim_clients_update d)
qed

lemma stdoutChunks_inbox:
  "sessions w t = Some s \<Longrightarrow> withinSpreadLimit cs \<Longrightarrow>
   inbox (stdoutChunks t cs w) x =
     inbox w x @ (if x \<in> clients s \<and> x \<notin> closed w then cs else [])"
proof (induction cs arbitrary: w s)
  case Nil
  then show ?case by simp
next
  case (Cons c cs)
  have b: "length (split_lines c) \<le> spreadLimit" and rest: "withinSpreadLimit cs"
    using Cons.prems(2) by (simp_all add: withinSpreadLimit_def)
  let ?w1 = "broadcastToSession t c (w\<lparr>sessions := (sessions w)(t \<mapsto> pushAndTrim s c)\<rparr>)"
  let ?s1 = "(pushAndTrim s c)\<lparr>clients := clients s - closed w\<rparr>"
  have st: "stdoutChunk t c w = Some ?w1" by (rule stdoutChunk_within [OF Cons.prems(1) b])
  have s1: "sessions ?w1 t = Some ?s1"
    by (simp add: broadcastToSession_def pushAndTrim_clients)
  have c1: "closed ?w1 = closed w" by (simp add: broadcastToSession_def)
  have i1: "inbox ?w1 x = inbox w x @ (if x \<in> clients s \<and> x \<notin> closed w then [c] else [])"
    by (simp add: broadcastToSession_def pushAndTrim_clients)
  show ?case
    using Cons.IH [OF s1 rest] st
    by (simp add: c1 i1 pushAndTrim_clients)
qed

lemma addClient_session:
  "\<exists>s. sessions (addClientToSession t ws w) t = Some s \<and> ws \<in> clients s
       \<and> outputBuffer s = bufferOf t w"
  by (simp add: addClientToSession_def getOrCreateTerminalSession_def newSession_def
        send_def bufferOf_def Let_def split: option.splits)

lemma addClient_closed: "closed (addClientToSession t ws w) = closed w"
  by (simp add: addClientToSession_def getOrCreateTerminalSession_def
        send_def Let_def split: option.splits)

lemma addClient_inbox:
  "ws \<notin> closed w \<Longrightarrow>
   inbox (addClientToSession t ws w) ws =
     inbox w ws @ (if bufferOf t w = [] then [] else [concat (bufferOf t w)])"
  by (simp add: addClientToSession_def getOrCreateTerminalSession_def newSession_def
        send_def bufferOf_def Let_def split: option.splits)

text \<open>
  What a websocket on which \<open>send\<close> works is sent from its attachment on: the replay of
  the buffer as one message, which is the entries of the buffer joined with nothing in
  between, and then the relayed chunks as they are.
\<close>

lemma attach_then_chunks_inbox:
  assumes "ws \<notin> closed w" and "withinSpreadLimit chunks"
  shows "inbox (stdoutChunks t chunks (addClientToSession t ws w)) ws =
           inbox w ws @ (if bufferOf t w = [] then [] else [concat (bufferOf t w)]) @ chunks"
proof -
  obtain s where s: "sessions (addClientToSession t ws w) t = Some s" and m: "ws \<in> clients s"
    using addClient_session by blast
  have "inbox (stdoutChunks t chunks (addClientToSession t ws w)) ws =
          inbox (addClientToSession t ws w) ws @ chunks"
    using stdoutChunks_inbox [OF s assms(2), of ws] m assms(1) by (simp add: addClient_closed)
  then show ?thesis
    using addClient_inbox [OF assms(1), of t] by simp
qed

text \<open>
  Claim C2 at an output with line feeds. The session of T1 has the observer 1 attached
  and its process writes the chunk "a", line feed, "b", line feed. The observer 1 is sent
  the chunk as it is. The observer 2 attaches after that and is sent the replay "ab": the
  buffer holds the pieces between the line feeds, the replay joins them with nothing in
  between, and the two line feeds of the output are lost.
\<close>

theorem replay_loses_line_feeds:
  "inbox (addClientToSession ''T1'' 2
            (stdoutChunks ''T1'' [''a'' @ [LF] @ ''b'' @ [LF]]
               \<lparr> sessions = [''T1'' \<mapsto> (newSession ''T1'')\<lparr>clients := {1}\<rparr>],
                  inbox = (\<lambda>_. []), closed = {}, killed = [] \<rparr>)) 1
     = [''a'' @ [LF] @ ''b'' @ [LF]]
 \<and> inbox (addClientToSession ''T1'' 2
            (stdoutChunks ''T1'' [''a'' @ [LF] @ ''b'' @ [LF]]
               \<lparr> sessions = [''T1'' \<mapsto> (newSession ''T1'')\<lparr>clients := {1}\<rparr>],
                  inbox = (\<lambda>_. []), closed = {}, killed = [] \<rparr>)) 2
     = [''ab'']"
  by (simp add: addClientToSession_def getOrCreateTerminalSession_def send_def Let_def
        stdoutChunk_def bufferOutput_def pushAndTrim_def spreadLimit_def broadcastToSession_def
        newSession_def LF_def)

text \<open>
  Claim C8. Detaching an observer from a session changes the observer set of that session
  and nothing else: process handle, status, ring buffer, start time and the other fields
  are as before, no process is killed, nothing is sent, and the other sessions are
  untouched. This also holds when the observer was the only one. Output relayed while the
  observer is away, in chunks with few enough lines for \<open>bufferOutput\<close> to return, is
  buffered, and when the observer attaches again it is sent the buffer as it then is,
  which holds the lines produced in the interim.
\<close>

theorem detach_changes_only_observers:
  assumes "sessions w t = Some s"
  shows "sessions (removeClientFromSession t ws w) t = Some (s\<lparr>clients := clients s - {ws}\<rparr>)
       \<and> process (s\<lparr>clients := clients s - {ws}\<rparr>) = process s
       \<and> status (s\<lparr>clients := clients s - {ws}\<rparr>) = status s
       \<and> outputBuffer (s\<lparr>clients := clients s - {ws}\<rparr>) = outputBuffer s
       \<and> startedAt (s\<lparr>clients := clients s - {ws}\<rparr>) = startedAt s
       \<and> (\<forall>t'. t' \<noteq> t \<longrightarrow> sessions (removeClientFromSession t ws w) t' = sessions w t')
       \<and> killed (removeClientFromSession t ws w) = killed w
       \<and> inbox (removeClientFromSession t ws w) = inbox w
       \<and> closed (removeClientFromSession t ws w) = closed w
       \<and> (ws \<notin> closed w \<and> withinSpreadLimit chunks \<longrightarrow>
            (\<exists>s2. bufferOutputs s chunks = Inr s2
               \<and> inbox (addClientToSession t ws
                          (stdoutChunks t chunks (removeClientFromSession t ws w))) ws =
                   inbox w ws @
                     (if outputBuffer s2 = [] then [] else [concat (outputBuffer s2)])
               \<and> (chunks \<noteq> [] \<and> 0 < maxBufferLines s \<longrightarrow> outputBuffer s2 \<noteq> [])))"
proof -
  let ?w1 = "removeClientFromSession t ws w"
  let ?s1 = "s\<lparr>clients := clients s - {ws}\<rparr>"
  let ?w2 = "stdoutChunks t chunks ?w1"
  let ?s2 = "foldl pushAndTrim s chunks"
  have r: "?w1 = w\<lparr>sessions := (sessions w)(t \<mapsto> ?s1)\<rparr>"
    using assms by (simp add: removeClientFromSession_def)
  have s1: "sessions ?w1 t = Some ?s1" by (simp add: r)
  have c1: "closed ?w1 = closed w" by (simp add: r)
  have reattach: "inbox (addClientToSession t ws ?w2) ws =
              inbox w ws @ (if outputBuffer ?s2 = [] then [] else [concat (outputBuffer ?s2)])"
    if live: "ws \<notin> closed w" and bound: "withinSpreadLimit chunks"
  proof -
    have i2: "inbox ?w2 ws = inbox w ws"
      using stdoutChunks_inbox [OF s1 bound, of ws] by (simp add: r)
    have "bufferOf t ?w2 = outputBuffer ?s2"
      using stdoutChunks_session [OF s1 bound]
      by (simp add: bufferOf_def foldl_pushAndTrim_clients_update)
    moreover have "ws \<notin> closed ?w2" using live by (simp add: stdoutChunks_closed c1)
    ultimately show ?thesis
      using addClient_inbox [of ws ?w2 t] i2 by simp
  qed
  have nonempty: "outputBuffer ?s2 \<noteq> []"
    if ne: "chunks \<noteq> []" and pos: "0 < maxBufferLines s"
  proof -
    let ?all = "outputBuffer s @ concat (map split_lines chunks)"
    obtain c cs where cs: "chunks = c # cs" using ne by (cases chunks) auto
    have "split_lines c \<noteq> []" by (rule split_lines_nonempty)
    then have "0 < length ?all" by (simp add: cs)
    then have "length ?all - maxBufferLines s < length ?all" using pos by simp
    then have d: "drop (length ?all - maxBufferLines s) ?all \<noteq> []"
      by (simp only: drop_eq_Nil not_le)
    have "outputBuffer ?s2 = drop (length ?all - maxBufferLines s) ?all"
      by (rule foldl_pushAndTrim_buffer [OF ne])
    with d show ?thesis by metis
  qed
  have last: "\<exists>s2. bufferOutputs s chunks = Inr s2
               \<and> inbox (addClientToSession t ws ?w2) ws =
                   inbox w ws @
                     (if outputBuffer s2 = [] then [] else [concat (outputBuffer s2)])
               \<and> (chunks \<noteq> [] \<and> 0 < maxBufferLines s \<longrightarrow> outputBuffer s2 \<noteq> [])"
    if live: "ws \<notin> closed w" and bound: "withinSpreadLimit chunks"
    using bufferOutputs_within [OF bound, of s] reattach [OF live bound] nonempty
    by (intro exI [of _ ?s2]) simp
  show ?thesis
    using s1 last by (simp add: r)
qed

theorem detach_changes_only_observers_witness:
  "inbox (addClientToSession ''T1'' 7
            (stdoutChunks ''T1'' [''x'' @ [LF] @ ''y'']
               (removeClientFromSession ''T1'' 7
                  \<lparr> sessions = [''T1'' \<mapsto> (newSession ''T1'')
                        \<lparr>process := Some 3, status := SessionRunning, clients := {7}\<rparr>],
                     inbox = (\<lambda>_. []), closed = {}, killed = [] \<rparr>))) 7 = [''xy'']"
proof -
  let ?s = "(newSession ''T1'')\<lparr>process := Some 3, status := SessionRunning, clients := {7}\<rparr>"
  let ?w = "\<lparr> sessions = [''T1'' \<mapsto> ?s], inbox = (\<lambda>_. []), closed = {}, killed = [] \<rparr>"
  have h: "sessions ?w ''T1'' = Some ?s" by simp
  have bd: "withinSpreadLimit [''x'' @ [LF] @ ''y'']"
    by (simp add: withinSpreadLimit_def spreadLimit_def LF_def)
  have b: "bufferOutputs ?s [''x'' @ [LF] @ ''y''] = Inr (?s\<lparr>outputBuffer := [''x'', ''y'']\<rparr>)"
    by (simp add: bufferOutput_def pushAndTrim_def spreadLimit_def newSession_def LF_def)
  show ?thesis
    using detach_changes_only_observers [OF h, of 7 "[''x'' @ [LF] @ ''y'']"] bd b
    by auto
qed

section \<open>Creating a workspace\<close>

lemma create_exists:
  "existsSync (worktreePathOf g t) g \<Longrightarrow>
   create env t base g = (Inl (Error (''Worktree already exists for ticket '' @ t)), g)"
  by (simp add: create_def Let_def)

lemma create_failure_dirs:
  assumes "\<not> existsSync (worktreePathOf g t) g" and "fst (create env t base g) = Inl e"
  shows "dirs (snd (create env t base g)) = dirs g"
  using assms
  by (auto simp add: create_def Let_def create_cleanup_def existsSync_def rmSync_def
        git_worktree_add_def lock_def git_worktree_lock_def getHead_def
        split: if_splits option.splits sum.splits prod.splits log_outcome.splits)

lemma create_success:
  assumes "fst (create env t base g) = Inr wt"
  shows "locked wt \<and> path wt = worktreePathOf g t \<and> branch wt = branchNameOf t
       \<and> wtTicketId wt = Some t
       \<and> registered (snd (create env t base g)) (worktreePathOf g t)
            = Some \<lparr>isLocked = True, isDirty = False\<rparr>
       \<and> dirs (snd (create env t base g)) = insert (worktreePathOf g t) (dirs g)
       \<and> worktreesDir (snd (create env t base g)) = worktreesDir g"
  using assms
  by (auto simp add: create_def Let_def create_cleanup_def existsSync_def rmSync_def
        git_worktree_add_def lock_def git_worktree_lock_def getHead_def worktreePathOf_def
        split: if_splits option.splits sum.splits prod.splits log_outcome.splits)

text \<open>
  Claim C7. (1) When the directory of the ticket's workspace exists, \<open>create\<close> throws
  "Worktree already exists for ticket ..." and changes nothing. (2) When \<open>create\<close> fails
  later, at the fetch, at the creation of the working tree, at the lock or at reading the
  head, the directory of the workspace does not exist when the error is thrown, also when
  the failed step had left it behind, and no other directory has changed. (3) When
  \<open>create\<close> succeeds, the returned workspace is marked locked, its directory exists and
  git holds its working tree as locked; a second \<open>create\<close> for the same ticket then
  fails with the already-exists error, so a ticket has at most one workspace.
\<close>

theorem create_exists_cleanup_locked:
  "(existsSync (worktreePathOf g t) g \<longrightarrow>
      create env t base g = (Inl (Error (''Worktree already exists for ticket '' @ t)), g))
 \<and> (\<not> existsSync (worktreePathOf g t) g \<longrightarrow>
      (\<forall>e. fst (create env t base g) = Inl e \<longrightarrow>
         \<not> existsSync (worktreePathOf g t) (snd (create env t base g))
       \<and> dirs (snd (create env t base g)) = dirs g))
 \<and> (\<forall>wt. fst (create env t base g) = Inr wt \<longrightarrow>
      locked wt \<and> path wt = worktreePathOf g t
    \<and> existsSync (path wt) (snd (create env t base g))
    \<and> (\<exists>en. registered (snd (create env t base g)) (path wt) = Some en \<and> isLocked en)
    \<and> create env' t base' (snd (create env t base g)) =
        (Inl (Error (''Worktree already exists for ticket '' @ t)), snd (create env t base g)))"
proof (intro conjI impI allI)
  assume "existsSync (worktreePathOf g t) g"
  then show "create env t base g = (Inl (Error (''Worktree already exists for ticket '' @ t)), g)"
    by (rule create_exists)
next
  fix e
  assume a: "\<not> existsSync (worktreePathOf g t) g" and f: "fst (create env t base g) = Inl e"
  have d: "dirs (snd (create env t base g)) = dirs g"
    by (rule create_failure_dirs [OF a f])
  show "\<not> existsSync (worktreePathOf g t) (snd (create env t base g))"
    using a d by (simp add: existsSync_def)
  show "dirs (snd (create env t base g)) = dirs g" by (rule d)
next
  fix wt
  assume s: "fst (create env t base g) = Inr wt"
  note cs = create_success [OF s]
  show "locked wt" using cs by simp
  show "path wt = worktreePathOf g t" using cs by simp
  show ex: "existsSync (path wt) (snd (create env t base g))"
    using cs by (simp add: existsSync_def)
  show "\<exists>en. registered (snd (create env t base g)) (path wt) = Some en \<and> isLocked en"
    using cs by simp
  have "worktreePathOf (snd (create env t base g)) t = path wt"
    using cs by (simp add: worktreePathOf_def)
  then show "create env' t base' (snd (create env t base g)) =
        (Inl (Error (''Worktree already exists for ticket '' @ t)), snd (create env t base g))"
    using ex create_exists [of "snd (create env t base g)" t env' base'] by simp
qed

theorem create_exists_cleanup_locked_witness:
  "fst (create \<lparr>fetchFails = False, addOutcome = AddProceeds, logOutcome = LogLatest ''abc''\<rparr>
          ''T1'' ''main''
          \<lparr>worktreesDir = ''/w'', dirs = {''/w/ticket-T1''}, registered = Map.empty,
             branches = Map.empty\<rparr>)
     = Inl (Error ''Worktree already exists for ticket T1'')
 \<and> dirs (snd (create \<lparr>fetchFails = False, addOutcome = AddRejectedLeavingDir,
                        logOutcome = LogLatest ''abc''\<rparr>
          ''T1'' ''main''
          \<lparr>worktreesDir = ''/w'', dirs = {}, registered = Map.empty, branches = Map.empty\<rparr>))
     = {}
 \<and> existsSync ''/w/ticket-T1''
      (snd (create \<lparr>fetchFails = False, addOutcome = AddProceeds, logOutcome = LogLatest ''abc''\<rparr>
          ''T1'' ''main''
          \<lparr>worktreesDir = ''/w'', dirs = {}, registered = Map.empty, branches = Map.empty\<rparr>))"
proof -
  let ?ok = "\<lparr>fetchFails = False, addOutcome = AddProceeds, logOutcome = LogLatest ''abc''\<rparr>"
  let ?bad = "\<lparr>fetchFails = False, addOutcome = AddRejectedLeavingDir,
               logOutcome = LogLatest ''abc''\<rparr>"
  let ?g0 = "\<lparr>worktreesDir = ''/w'', dirs = {}, registered = Map.empty, branches = Map.empty\<rparr>"
  let ?g1 = "\<lparr>worktreesDir = ''/w'', dirs = {''/w/ticket-T1''}, registered = Map.empty,
              branches = Map.empty\<rparr>"
  have p0: "worktreePathOf ?g0 ''T1'' = ''/w/ticket-T1''" by (simp add: worktreePathOf_def)
  have p1: "worktreePathOf ?g1 ''T1'' = ''/w/ticket-T1''" by (simp add: worktreePathOf_def)
  have e1: "existsSync (worktreePathOf ?g1 ''T1'') ?g1" by (simp add: p1 existsSync_def)
  have n0: "\<not> existsSync (worktreePathOf ?g0 ''T1'') ?g0" by (simp add: existsSync_def)
  have f: "fst (create ?bad ''T1'' ''main'' ?g0) = Inl (GitError ''worktree add'')"
    by (simp add: create_def Let_def p0 existsSync_def branchNameOf_def git_worktree_add_def
          create_cleanup_def)
  have s: "fst (create ?ok ''T1'' ''main'' ?g0) =
             Inr \<lparr>path = ''/w/ticket-T1'', branch = ''ticket/T1'', head = ''abc'', locked = True,
                  wtTicketId = Some ''T1''\<rparr>"
    by (simp add: create_def Let_def p0 existsSync_def branchNameOf_def git_worktree_add_def
          lock_def git_worktree_lock_def getHead_def worktreePathOf_def)
  have a: "fst (create ?ok ''T1'' ''main'' ?g1) = Inl (Error ''Worktree already exists for ticket T1'')"
    using create_exists_cleanup_locked [of ?g1 "''T1''" ?ok "''main''"] e1 by simp
  have b: "dirs (snd (create ?bad ''T1'' ''main'' ?g0)) = {}"
    using create_exists_cleanup_locked [of ?g0 "''T1''" ?bad "''main''"] n0 f by simp
  have c: "existsSync ''/w/ticket-T1'' (snd (create ?ok ''T1'' ''main'' ?g0))"
    using create_exists_cleanup_locked [of ?g0 "''T1''" ?ok "''main''"] s p0 by auto
  show ?thesis using a b c by simp
qed

section \<open>Unlocking and removing a workspace\<close>

lemma unlock_effect:
  "dirs (snd (unlock t g)) = dirs g"
  "worktreesDir (snd (unlock t g)) = worktreesDir g"
  "branches (snd (unlock t g)) = branches g"
  "dom (registered (snd (unlock t g))) = dom (registered g)"
  "registered (snd (unlock t g)) (worktreePathOf g t) =
     map_option (\<lambda>en. en\<lparr>isLocked := False\<rparr>) (registered g (worktreePathOf g t))"
  by (auto simp add: unlock_def git_worktree_unlock_def split: option.splits)

lemma unlock_not_locked:
  "registered (snd (unlock t g)) (worktreePathOf g t) = Some en \<Longrightarrow> \<not> isLocked en"
  by (auto simp add: unlock_effect)

lemma remove_forced:
  "workspaceIsWorktree g t \<or> \<not> existsSync (worktreePathOf g t) g \<Longrightarrow>
   \<not> existsSync (worktreePathOf g t) (snd (remove t True g))"
  "registered (snd (remove t True g)) (worktreePathOf g t) = None"
  "worktreesDir (snd (remove t True g)) = worktreesDir g"
  by (auto simp add: remove_def Let_def unlock_def git_worktree_unlock_def
        git_worktree_remove_def deleteLocalBranch_def workspaceIsWorktree_def existsSync_def
        split: option.splits if_splits)

lemma create_failure_cases:
  assumes "create env t base g = (Inl e, g1)"
  shows "worktreesDir g1 = worktreesDir g
       \<and> ((existsSync (worktreePathOf g t) g \<and> g1 = g)
          \<or> \<not> existsSync (worktreePathOf g t) g1)"
  using assms
  by (auto simp add: create_def Let_def create_cleanup_def existsSync_def rmSync_def
        git_worktree_add_def lock_def git_worktree_lock_def getHead_def
        split: if_splits option.splits sum.splits prod.splits log_outcome.splits)

section \<open>Directories and registrations go together\<close>

text \<open>
  The manager creates and removes the directory of a workspace together with its
  registration in git: when every directory is a registered working tree before one of
  its operations, this is so afterwards.
\<close>

lemma create_keeps_registered:
  "dirs g \<subseteq> dom (registered g) \<Longrightarrow>
   dirs (snd (create env t base g)) \<subseteq> dom (registered (snd (create env t base g)))"
  by (auto simp add: create_def Let_def create_cleanup_def existsSync_def rmSync_def
        git_worktree_add_def lock_def git_worktree_lock_def getHead_def
        split: if_splits option.splits sum.splits prod.splits log_outcome.splits)

lemma unlock_keeps_registered:
  "dirs g \<subseteq> dom (registered g) \<Longrightarrow>
   dirs (snd (unlock t g)) \<subseteq> dom (registered (snd (unlock t g)))"
  by (simp add: unlock_effect)

lemma remove_keeps_registered:
  "dirs g \<subseteq> dom (registered g) \<Longrightarrow>
   dirs (snd (remove t force g)) \<subseteq> dom (registered (snd (remove t force g)))"
  by (auto simp add: remove_def Let_def unlock_def git_worktree_unlock_def
        git_worktree_remove_def deleteLocalBranch_def
        split: option.splits if_splits)

lemma registered_workspaceIsWorktree:
  "dirs g \<subseteq> dom (registered g) \<Longrightarrow> workspaceIsWorktree g t"
  by (auto simp add: workspaceIsWorktree_def existsSync_def)

section \<open>Effects of the orchestrator's steps\<close>

lemmas prim_defs = broadcast_def updateAgentStatus_def updateTicketColumn_def addMessage_def
  addSystemMessage_def addAgentMessage_def addHumanMessage_def nanoid_def

subsection \<open>What the ends of a job change\<close>

lemma blockAgent_effect:
  "agents (blockAgent t a q w) =
     (case agents w a of None \<Rightarrow> agents w
      | Some r \<Rightarrow> (agents w)(a \<mapsto> r\<lparr>agentStatus := ''BLOCKED''\<rparr>))"
  "tickets (blockAgent t a q w) =
     (case tickets w t of None \<Rightarrow> tickets w
      | Some k \<Rightarrow> (tickets w)(t \<mapsto> k\<lparr>columnId := Some ''blocked''\<rparr>))"
  "messages (blockAgent t a q w) =
     messages w @ [\<lparr>msgId = ''id'' @ string_of_nat (nextId w), msgTicketId = t, content = q,
                    senderType = Agent\<rparr>]"
  "events (blockAgent t a q w) =
     events w @ [TicketUpdated t ''blocked'', MessageCreated t q Agent, AgentBlocked t a q]"
  "currentJob (blockAgent t a q w) = currentJob w"
  "git (blockAgent t a q w) = git w"
  "spawned (blockAgent t a q w) = spawned w"
  "queue (blockAgent t a q w) = queue w"
  "isProcessing (blockAgent t a q w) = isProcessing w"
  "inflight (blockAgent t a q w) = inflight w"
  "killedProcs (blockAgent t a q w) = killedProcs w"
  by (simp_all add: blockAgent_def prim_defs Let_def split: option.splits)

lemma completeAgent_effect:
  "agents (completeAgent t a out w) =
     (case agents w a of None \<Rightarrow> agents w
      | Some r \<Rightarrow> (agents w)(a \<mapsto> r\<lparr>agentStatus := ''COMPLETED'', completedAt := True\<rparr>))"
  "tickets (completeAgent t a out w) =
     (case tickets w t of None \<Rightarrow> tickets w
      | Some k \<Rightarrow> (tickets w)(t \<mapsto> k\<lparr>columnId := Some ''review''\<rparr>))"
  "messages (completeAgent t a out w) =
     messages w @ [\<lparr>msgId = ''id'' @ string_of_nat (nextId w), msgTicketId = t,
                    content = ''Agent completed the task. Please review the changes.'',
                    senderType = System\<rparr>]"
  "events (completeAgent t a out w) =
     events w @ [TicketUpdated t ''review'',
                 MessageCreated t ''Agent completed the task. Please review the changes.'' System,
                 AgentCompleted t a]"
  "currentJob (completeAgent t a out w) = None"
  "git (completeAgent t a out w) = snd (unlock t (git w))"
  "spawned (completeAgent t a out w) = spawned w"
  "queue (completeAgent t a out w) = queue w"
  "isProcessing (completeAgent t a out w) = isProcessing w"
  "inflight (completeAgent t a out w) = inflight w"
  "killedProcs (completeAgent t a out w) = killedProcs w"
  by (simp_all add: completeAgent_def prim_defs Let_def split: option.splits)

lemma failAgent_effect:
  "agents (failAgent t a err w) =
     (case agents w a of None \<Rightarrow> agents w
      | Some r \<Rightarrow> (agents w)(a \<mapsto> r\<lparr>agentStatus := ''FAILED'', completedAt := True\<rparr>))"
  "tickets (failAgent t a err w) =
     (case tickets w t of None \<Rightarrow> tickets w
      | Some k \<Rightarrow> (tickets w)(t \<mapsto> k\<lparr>columnId := Some ''blocked''\<rparr>))"
  "messages (failAgent t a err w) =
     messages w @ [\<lparr>msgId = ''id'' @ string_of_nat (nextId w), msgTicketId = t,
                    content = ''Agent failed: '' @ err, senderType = System\<rparr>]"
  "events (failAgent t a err w) =
     events w @ [TicketUpdated t ''blocked'', MessageCreated t (''Agent failed: '' @ err) System,
                 AgentFailed t a err]"
  "currentJob (failAgent t a err w) = None"
  "git (failAgent t a err w) = snd (remove t True (git w))"
  "spawned (failAgent t a err w) = spawned w"
  "queue (failAgent t a err w) = queue w"
  "isProcessing (failAgent t a err w) = isProcessing w"
  "inflight (failAgent t a err w) = inflight w"
  "killedProcs (failAgent t a err w) = killedProcs w"
  by (simp_all add: failAgent_def prim_defs Let_def split: option.splits)

lemma addMessage_effect:
  "agents (addMessage sd t x w) = agents w"
  "tickets (addMessage sd t x w) = tickets w"
  "messages (addMessage sd t x w) =
     messages w @ [\<lparr>msgId = ''id'' @ string_of_nat (nextId w), msgTicketId = t, content = x,
                    senderType = sd\<rparr>]"
  "events (addMessage sd t x w) = events w @ [MessageCreated t x sd]"
  "currentJob (addMessage sd t x w) = currentJob w"
  "git (addMessage sd t x w) = git w"
  "spawned (addMessage sd t x w) = spawned w"
  "queue (addMessage sd t x w) = queue w"
  "isProcessing (addMessage sd t x w) = isProcessing w"
  "inflight (addMessage sd t x w) = inflight w"
  "killedProcs (addMessage sd t x w) = killedProcs w"
  "prds (addMessage sd t x w) = prds w"
  by (simp_all add: prim_defs Let_def)

subsection \<open>An iteration without a sentinel\<close>

lemma iteration_sentinel_free:
  assumes job: "currentJob w = Some job"
      and free: "sentinelFree (wk i p (claudeArgs cfg pr sid))"
  shows "\<exists>sid' w1. iteration cfg wk t a p pr sid i w = Inr (Next sid' w1)
           \<and> spawned w1 = spawned w @ [(p, claudeArgs cfg pr sid)]
           \<and> filter isProgress (events w1) =
               filter isProgress (events w) @ [AgentProgress t a i (maxIterations cfg)]
           \<and> dom (agents w1) = dom (agents w)
           \<and> tickets w1 = tickets w
           \<and> (\<exists>job'. currentJob w1 = Some job' \<and> iterations job' = i)
           \<and> git w1 = git w \<and> queue w1 = queue w"
proof (cases "wk i p (claudeArgs cfg pr sid)")
  case (SpawnThrows e)
  then show ?thesis
    using job
    by (auto simp add: iteration_def Let_def addSystemMessage_def addMessage_effect
          updateAgentStatus_def broadcast_def split: option.splits)
next
  case (StreamThrows e)
  then show ?thesis
    using job
    by (auto simp add: iteration_def Let_def addSystemMessage_def addMessage_effect
          setProcess_def updateAgentStatus_def broadcast_def split: option.splits)
next
  case (Exchange so se code)
  with free have nc: "\<not> isTaskComplete (streamOutput so se)"
    and nn: "\<not> needsHumanInput (streamOutput so se)"
    by (simp_all add: sentinelFree_def)
  show ?thesis
    using job Exchange nc nn
    by (auto simp add: iteration_def Let_def setProcess_def setLastOutput_def
          updateAgentStatus_def broadcast_def split: option.splits)
qed

lemma agentLoop_exhausts:
  "\<forall>i d args. sentinelFree (wk i d args) \<Longrightarrow>
   currentJob w \<noteq> None \<Longrightarrow> i \<le> maxIterations cfg \<Longrightarrow>
         \<exists>w2. agentLoop cfg wk t a p pr sid i w = (None, blockAgent t a (maxIterationsText cfg) w2)
           \<and> length (spawned w2) = length (spawned w) + (maxIterations cfg - i)
           \<and> filter isProgress (events w2) =
               filter isProgress (events w)
               @ map (\<lambda>n. AgentProgress t a n (maxIterations cfg)) [Suc i..<Suc (maxIterations cfg)]
           \<and> dom (agents w2) = dom (agents w)
           \<and> tickets w2 = tickets w
           \<and> (\<exists>job'. currentJob w2 = Some job'
                 \<and> (i < maxIterations cfg \<longrightarrow> iterations job' = maxIterations cfg))
           \<and> (i = maxIterations cfg \<longrightarrow> currentJob w2 = currentJob w)
           \<and> git w2 = git w \<and> queue w2 = queue w"
proof (induction cfg wk t a p pr sid i w rule: agentLoop.induct)
  case (1 cfg wk t a p pr sid i w)
  show ?case
  proof (cases "i < maxIterations cfg")
    case False
    with "1.prems" have e: "i = maxIterations cfg" by simp
    have "agentLoop cfg wk t a p pr sid i w = (None, blockAgent t a (maxIterationsText cfg) w)"
      using False by (simp add: agentLoop.simps [of cfg wk t a p pr sid i w])
    then show ?thesis
      using "1.prems" e by (intro exI [of _ w]) auto
  next
    case True
    obtain job where job: "currentJob w = Some job" using "1.prems" by auto
    note free = "1.prems"(1)
    have fr: "sentinelFree (wk (Suc i) p (claudeArgs cfg pr sid))" using free by blast
    obtain sid' w1 where it: "iteration cfg wk t a p pr sid (Suc i) w = Inr (Next sid' w1)"
      and sp: "spawned w1 = spawned w @ [(p, claudeArgs cfg pr sid)]"
      and ev: "filter isProgress (events w1) =
                 filter isProgress (events w) @ [AgentProgress t a (Suc i) (maxIterations cfg)]"
      and ag: "dom (agents w1) = dom (agents w)"
      and tk: "tickets w1 = tickets w"
      and cj: "\<exists>job'. currentJob w1 = Some job' \<and> iterations job' = Suc i"
      and gq: "git w1 = git w" "queue w1 = queue w"
      using iteration_sentinel_free [where w = w and job = job and wk = wk and i = "Suc i"
          and p = p and cfg = cfg and pr = pr and sid = sid and t = t and a = a, OF job fr]
      by blast
    have c1: "currentJob w1 \<noteq> None" using cj by auto
    have le: "Suc i \<le> maxIterations cfg" using True by simp
    obtain w2 where
      r: "agentLoop cfg wk t a p pr sid' (Suc i) w1 = (None, blockAgent t a (maxIterationsText cfg) w2)"
      and sp2: "length (spawned w2) = length (spawned w1) + (maxIterations cfg - Suc i)"
      and ev2: "filter isProgress (events w2) =
               filter isProgress (events w1)
               @ map (\<lambda>n. AgentProgress t a n (maxIterations cfg)) [Suc (Suc i)..<Suc (maxIterations cfg)]"
      and ag2: "dom (agents w2) = dom (agents w1)"
      and tk2: "tickets w2 = tickets w1"
      and cj2: "\<exists>job'. currentJob w2 = Some job'
                  \<and> (Suc i < maxIterations cfg \<longrightarrow> iterations job' = maxIterations cfg)"
      and same: "Suc i = maxIterations cfg \<longrightarrow> currentJob w2 = currentJob w1"
      and gq2: "git w2 = git w1" "queue w2 = queue w1"
      using "1.IH" [OF True it refl free c1 le] by blast
    have loop: "agentLoop cfg wk t a p pr sid i w = agentLoop cfg wk t a p pr sid' (Suc i) w1"
      using True it by (simp add: agentLoop.simps [of cfg wk t a p pr sid i w])
    have up: "[Suc i..<Suc (maxIterations cfg)] = Suc i # [Suc (Suc i)..<Suc (maxIterations cfg)]"
      using le by (simp add: upt_conv_Cons)
    have cj3: "\<exists>job'. currentJob w2 = Some job'
                 \<and> (i < maxIterations cfg \<longrightarrow> iterations job' = maxIterations cfg)"
    proof (cases "Suc i < maxIterations cfg")
      case True
      then show ?thesis using cj2 by auto
    next
      case False
      then have "Suc i = maxIterations cfg" using le by simp
      then show ?thesis using cj same by auto
    qed
    have n: "i \<noteq> maxIterations cfg" using True by simp
    show ?thesis
      using loop r sp sp2 ev ev2 ag ag2 tk tk2 gq gq2 cj3 up le n
      by (intro exI [of _ w2]) (simp add: Suc_diff_Suc)
  qed
qed

subsection \<open>The iteration budget\<close>

lemma maxIterationsText_says_so: "str_includes (maxIterationsText cfg) ''maximum iterations''"
  by (simp add: maxIterationsText_def)

text \<open>
  Claim C4. When no exchange with the worker yields a sentinel, \<open>runAgentLoop\<close> returns
  without an error after exactly \<open>maxIterations\<close> iterations: that many commands have been
  spawned and the progress events of the iterations 1 to \<open>maxIterations\<close> have been sent,
  in this order. It ends in \<open>blockAgent\<close>: the agent row has the status BLOCKED, the ticket
  is in the column "blocked", the last message is the agent's question "Reached maximum
  iterations (n). ...", and the last event is "agent.blocked". The job is not failed: it
  stays the current job and the workspace is untouched.
\<close>

theorem budget_exhausted_blocks:
  assumes free: "\<forall>i d args. sentinelFree (wk i d args)"
      and job: "currentJob w = Some job"
      and row: "agents w a = Some r"
      and tk: "tickets w t = Some k"
  shows "\<exists>w'. runAgentLoop cfg wk t a p w = (None, w')
      \<and> length (spawned w') = length (spawned w) + maxIterations cfg
      \<and> filter isProgress (events w') =
          filter isProgress (events w)
          @ map (\<lambda>n. AgentProgress t a n (maxIterations cfg)) [1..<Suc (maxIterations cfg)]
      \<and> (\<exists>r'. agents w' a = Some r' \<and> agentStatus r' = ''BLOCKED'')
      \<and> (\<exists>k'. tickets w' t = Some k' \<and> columnId k' = Some ''blocked'')
      \<and> (\<exists>ms i. messages w' = ms @ [\<lparr>msgId = i, msgTicketId = t,
                      content = maxIterationsText cfg, senderType = Agent\<rparr>])
      \<and> (\<exists>es. events w' = es @ [AgentBlocked t a (maxIterationsText cfg)])
      \<and> (\<exists>job'. currentJob w' = Some job'
            \<and> (0 < maxIterations cfg \<longrightarrow> iterations job' = maxIterations cfg))
      \<and> git w' = git w
      \<and> str_includes (maxIterationsText cfg) ''maximum iterations''"
proof -
  let ?q = "maxIterationsText cfg"
  have c: "currentJob w \<noteq> None" using job by simp
  obtain w2 where
    r: "agentLoop cfg wk t a p (buildAgentPrompt (getPRDContent t w)) None 0 w
          = (None, blockAgent t a ?q w2)"
    and sp: "length (spawned w2) = length (spawned w) + (maxIterations cfg - 0)"
    and ev: "filter isProgress (events w2) =
               filter isProgress (events w)
               @ map (\<lambda>n. AgentProgress t a n (maxIterations cfg)) [Suc 0..<Suc (maxIterations cfg)]"
    and ag: "dom (agents w2) = dom (agents w)"
    and tk2: "tickets w2 = tickets w"
    and cj: "\<exists>job'. currentJob w2 = Some job'
               \<and> (0 < maxIterations cfg \<longrightarrow> iterations job' = maxIterations cfg)"
    and g: "git w2 = git w"
    using agentLoop_exhausts [OF free c, of 0 cfg t a p "buildAgentPrompt (getPRDContent t w)" None]
    by auto
  obtain r2 where r2: "agents w2 a = Some r2" using ag row by (metis domD domI)
  let ?w' = "blockAgent t a ?q w2"
  have 1: "runAgentLoop cfg wk t a p w = (None, ?w')" using r by (simp add: runAgentLoop_def)
  have 2: "length (spawned ?w') = length (spawned w) + maxIterations cfg"
    using sp by (simp add: blockAgent_effect)
  have 3: "filter isProgress (events ?w') =
          filter isProgress (events w)
          @ map (\<lambda>n. AgentProgress t a n (maxIterations cfg)) [1..<Suc (maxIterations cfg)]"
    using ev by (simp add: blockAgent_effect)
  have 4: "\<exists>r'. agents ?w' a = Some r' \<and> agentStatus r' = ''BLOCKED''"
    using r2 by (simp add: blockAgent_effect)
  have 5: "\<exists>k'. tickets ?w' t = Some k' \<and> columnId k' = Some ''blocked''"
    using tk tk2 by (simp add: blockAgent_effect)
  have 6: "\<exists>ms i. messages ?w' = ms @ [\<lparr>msgId = i, msgTicketId = t,
                      content = ?q, senderType = Agent\<rparr>]"
    by (simp add: blockAgent_effect)
  have 7: "\<exists>es. events ?w' = es @ [AgentBlocked t a ?q]"
    by (simp add: blockAgent_effect)
  have 8: "\<exists>job'. currentJob ?w' = Some job'
            \<and> (0 < maxIterations cfg \<longrightarrow> iterations job' = maxIterations cfg)"
    using cj by (simp add: blockAgent_effect)
  have 9: "git ?w' = git w" using g by (simp add: blockAgent_effect)
  have 10: "str_includes ?q ''maximum iterations''" by (rule maxIterationsText_says_so)
  show ?thesis
    by (rule exI [of _ ?w']) (intro conjI 1 2 3 4 5 6 7 8 9 10)
qed

subsection \<open>The example states, evaluated\<close>

lemma exStarted_eq:
  "exStarted =
     \<lparr> currentJob = Some \<lparr> jobTicketId = ''T1'', agentId = ''id0'', jobStatus = Starting,
                            jobProcess = None, iterations = 0, lastOutput = None \<rparr>,
       queue = [], isProcessing = True, inflight = Some (Started ''T1'' ''id0''),
       tickets = [''T1'' \<mapsto> exTicket], prds = [],
       agents = [''id0'' \<mapsto> \<lparr> agentTicketId = ''T1'', agentStatus = ''STARTING'',
                               iterationCount = 0, agentMaxIterations = 3,
                               completedAt = False \<rparr>],
       messages = [],
       events = [QueueUpdated [''T1''] None, AgentStarted ''T1'' ''id0''],
       git = exGit, spawned = [], killedProcs = [], nextId = 1 \<rparr>"
  by (simp add: exStarted_def run_def enqueue_def processQueue_take_def startAgent_init_def
        nanoid_def broadcast_def initOrchestrator_def exWorld_def exCfg_def DEFAULT_CONFIG_def
        currentTicketId_def string_of_nat.simps digit_def Let_def)

lemma sayingWorker_working_free: "\<forall>i d args. sentinelFree (sayingWorker ''working'' i d args)"
  by (simp add: sayingWorker_def sentinelFree_def streamOutput_def isTaskComplete_def
        needsHumanInput_def)

theorem budget_exhausted_blocks_witness:
  "fst (runAgentLoop exCfg (sayingWorker ''working'') ''T1'' ''id0'' ''/w/ticket-T1'' exStarted)
     = None
 \<and> length (spawned (snd (runAgentLoop exCfg (sayingWorker ''working'') ''T1'' ''id0''
                             ''/w/ticket-T1'' exStarted))) = 3"
proof -
  have job: "currentJob exStarted = Some \<lparr> jobTicketId = ''T1'', agentId = ''id0'',
               jobStatus = Starting, jobProcess = None, iterations = 0, lastOutput = None \<rparr>"
    by (simp add: exStarted_eq)
  have row: "agents exStarted ''id0'' = Some \<lparr> agentTicketId = ''T1'', agentStatus = ''STARTING'',
               iterationCount = 0, agentMaxIterations = 3, completedAt = False \<rparr>"
    by (simp add: exStarted_eq)
  have tk: "tickets exStarted ''T1'' = Some exTicket"
    by (simp add: exStarted_eq)
  have sp: "spawned exStarted = []" by (simp add: exStarted_eq)
  have m: "maxIterations exCfg = 3" by (simp add: exCfg_def DEFAULT_CONFIG_def)
  show ?thesis
    using budget_exhausted_blocks [OF sayingWorker_working_free job row tk,
            of exCfg "''/w/ticket-T1''"] sp m
    by auto
qed

subsection \<open>The completion sentinel\<close>

lemma iteration_complete:
  assumes job: "currentJob w = Some job"
      and ex: "wk i p (claudeArgs cfg pr sid) = Exchange so se code"
      and cmp: "isTaskComplete (streamOutput so se)"
  shows "\<exists>w5. iteration cfg wk t a p pr sid i w =
                 Inr (Return (completeAgent t a (streamOutput so se) w5))
           \<and> spawned w5 = spawned w @ [(p, claudeArgs cfg pr sid)]
           \<and> filter isProgress (events w5) =
               filter isProgress (events w) @ [AgentProgress t a i (maxIterations cfg)]
           \<and> dom (agents w5) = dom (agents w)
           \<and> tickets w5 = tickets w
           \<and> messages w5 = messages w
           \<and> git w5 = git w \<and> queue w5 = queue w"
proof -
  let ?w3 = "broadcast (AgentProgress t a i (maxIterations cfg))
               (updateAgentStatus a Running (Some i) (w\<lparr>currentJob := Some (job\<lparr>iterations := i\<rparr>)\<rparr>))"
  let ?w5 = "setLastOutput (streamOutput so se)
               (setProcess (length (spawned ?w3))
                  (?w3\<lparr>spawned := spawned ?w3 @ [(p, claudeArgs cfg pr sid)]\<rparr>))"
  have 1: "iteration cfg wk t a p pr sid i w =
             Inr (Return (completeAgent t a (streamOutput so se) ?w5))"
    using job ex cmp by (simp add: iteration_def Let_def)
  have 2: "spawned ?w5 = spawned w @ [(p, claudeArgs cfg pr sid)]"
    "filter isProgress (events ?w5) =
               filter isProgress (events w) @ [AgentProgress t a i (maxIterations cfg)]"
    "dom (agents ?w5) = dom (agents w)"
    "tickets ?w5 = tickets w" "messages ?w5 = messages w" "git ?w5 = git w" "queue ?w5 = queue w"
    by (auto simp add: setProcess_def setLastOutput_def updateAgentStatus_def broadcast_def
          split: option.splits)
  show ?thesis
    by (rule exI [of _ ?w5]) (intro conjI 1 2)
qed

text \<open>
  Claim C5. When the output collected in an iteration holds the completion marker, the
  loop returns from that iteration without an error: the agent row has the status
  COMPLETED, the ticket is in the column "review", \<open>unlock\<close> has been applied to the
  workspace, whose working tree is then not locked while its directory, its registration
  and its branch are as before, the last event is "agent.completed", and there is no
  current job. No further iteration has run: the iteration's spawn and progress event are
  the only new ones.
\<close>

theorem completion_marker_completes:
  assumes lt: "i < maxIterations cfg"
      and job: "currentJob w = Some job"
      and row: "agents w a = Some r"
      and tk: "tickets w t = Some k"
      and ex: "wk (Suc i) p (claudeArgs cfg pr sid) = Exchange so se code"
      and cmp: "isTaskComplete (streamOutput so se)"
  shows "\<exists>w'. agentLoop cfg wk t a p pr sid i w = (None, w')
      \<and> (\<exists>r'. agents w' a = Some r' \<and> agentStatus r' = ''COMPLETED'')
      \<and> (\<exists>k'. tickets w' t = Some k' \<and> columnId k' = Some ''review'')
      \<and> git w' = snd (unlock t (git w))
      \<and> (\<forall>en. registered (git w') (worktreePathOf (git w) t) = Some en \<longrightarrow> \<not> isLocked en)
      \<and> dirs (git w') = dirs (git w)
      \<and> dom (registered (git w')) = dom (registered (git w))
      \<and> branches (git w') = branches (git w)
      \<and> (\<exists>es. events w' = es @ [AgentCompleted t a])
      \<and> currentJob w' = None
      \<and> spawned w' = spawned w @ [(p, claudeArgs cfg pr sid)]
      \<and> filter isProgress (events w') =
          filter isProgress (events w) @ [AgentProgress t a (Suc i) (maxIterations cfg)]"
proof -
  obtain w5 where
    it: "iteration cfg wk t a p pr sid (Suc i) w =
           Inr (Return (completeAgent t a (streamOutput so se) w5))"
    and sp: "spawned w5 = spawned w @ [(p, claudeArgs cfg pr sid)]"
    and ev: "filter isProgress (events w5) =
               filter isProgress (events w) @ [AgentProgress t a (Suc i) (maxIterations cfg)]"
    and ag: "dom (agents w5) = dom (agents w)"
    and tk5: "tickets w5 = tickets w"
    and g: "git w5 = git w"
    using iteration_complete [where w = w and job = job and wk = wk and i = "Suc i" and p = p
        and cfg = cfg and pr = pr and sid = sid and t = t and a = a, OF job ex cmp]
    by blast
  obtain r5 where r5: "agents w5 a = Some r5" using ag row by (metis domD domI)
  let ?w' = "completeAgent t a (streamOutput so se) w5"
  have 1: "agentLoop cfg wk t a p pr sid i w = (None, ?w')"
    using lt it by (simp add: agentLoop.simps [of cfg wk t a p pr sid i w])
  have 2: "\<exists>r'. agents ?w' a = Some r' \<and> agentStatus r' = ''COMPLETED''"
    using r5 by (simp add: completeAgent_effect)
  have 3: "\<exists>k'. tickets ?w' t = Some k' \<and> columnId k' = Some ''review''"
    using tk tk5 by (simp add: completeAgent_effect)
  have 4: "git ?w' = snd (unlock t (git w))" using g by (simp add: completeAgent_effect)
  have 5: "\<forall>en. registered (git ?w') (worktreePathOf (git w) t) = Some en \<longrightarrow> \<not> isLocked en"
    using unlock_not_locked [of t "git w"] by (simp add: 4)
  have 6: "dirs (git ?w') = dirs (git w)" by (simp add: 4 unlock_effect)
  have 7: "dom (registered (git ?w')) = dom (registered (git w))" by (simp add: 4 unlock_effect)
  have 8: "branches (git ?w') = branches (git w)" by (simp add: 4 unlock_effect)
  have 9: "\<exists>es. events ?w' = es @ [AgentCompleted t a]" by (simp add: completeAgent_effect)
  have 10: "currentJob ?w' = None" by (simp add: completeAgent_effect)
  have 11: "spawned ?w' = spawned w @ [(p, claudeArgs cfg pr sid)]"
    using sp by (simp add: completeAgent_effect)
  have 12: "filter isProgress (events ?w') =
          filter isProgress (events w) @ [AgentProgress t a (Suc i) (maxIterations cfg)]"
    using ev by (simp add: completeAgent_effect)
  show ?thesis
    by (rule exI [of _ ?w']) (intro conjI 1 2 3 4 5 6 7 8 9 10 11 12)
qed

theorem completion_marker_completes_witness:
  "fst (agentLoop exCfg (sayingWorker ''All done. TASK_COMPLETE'') ''T1'' ''id0'' ''/w/ticket-T1''
          ''do it'' None 0 exStarted) = None
 \<and> currentJob (snd (agentLoop exCfg (sayingWorker ''All done. TASK_COMPLETE'') ''T1'' ''id0''
          ''/w/ticket-T1'' ''do it'' None 0 exStarted)) = None
 \<and> length (spawned (snd (agentLoop exCfg (sayingWorker ''All done. TASK_COMPLETE'') ''T1'' ''id0''
          ''/w/ticket-T1'' ''do it'' None 0 exStarted))) = 1"
proof -
  have lt: "0 < maxIterations exCfg" by (simp add: exCfg_def DEFAULT_CONFIG_def)
  have job: "currentJob exStarted = Some \<lparr> jobTicketId = ''T1'', agentId = ''id0'',
               jobStatus = Starting, jobProcess = None, iterations = 0, lastOutput = None \<rparr>"
    by (simp add: exStarted_eq)
  have row: "agents exStarted ''id0'' = Some \<lparr> agentTicketId = ''T1'', agentStatus = ''STARTING'',
               iterationCount = 0, agentMaxIterations = 3, completedAt = False \<rparr>"
    by (simp add: exStarted_eq)
  have tk: "tickets exStarted ''T1'' = Some exTicket"
    by (simp add: exStarted_eq)
  have ex: "sayingWorker ''All done. TASK_COMPLETE'' (Suc 0) ''/w/ticket-T1''
              (claudeArgs exCfg ''do it'' None) = Exchange ''All done. TASK_COMPLETE'' [] 0"
    by (simp add: sayingWorker_def)
  have cmp: "isTaskComplete (streamOutput ''All done. TASK_COMPLETE'' [])"
    by (simp add: isTaskComplete_def streamOutput_def)
  have sp: "spawned exStarted = []" by (simp add: exStarted_eq)
  show ?thesis
    using completion_marker_completes
            [where wk = "sayingWorker ''All done. TASK_COMPLETE''" and i = 0 and cfg = exCfg
               and w = exStarted and t = "''T1''" and a = "''id0''" and p = "''/w/ticket-T1''"
               and pr = "''do it''" and sid = None, OF lt job row tk ex cmp] sp
    by auto
qed

subsection \<open>The need-input sentinel without a question\<close>

lemma str_includes_after_first: "str_includes s m \<longleftrightarrow> after_first m s \<noteq> None"
proof (induction s)
  case Nil
  show ?case by (cases m) simp_all
next
  case (Cons c cs)
  then show ?case by (cases "strip_prefix m (c # cs)") simp_all
qed

lemma onlySpaceFollows_needsHumanInput: "onlySpaceFollows out \<Longrightarrow> needsHumanInput out"
  by (simp add: onlySpaceFollows_def needsHumanInput_def str_includes_after_first
        split: option.splits)

lemma dropWhile_all: "list_all P xs \<Longrightarrow> dropWhile P xs = []"
  by (induction xs) simp_all

lemma extractQuestion_fallback:
  assumes "onlySpaceFollows out"
  shows "extractQuestion out = ''Agent needs human input''"
proof -
  obtain rest where r: "after_first ''NEED_HUMAN_INPUT:'' out = Some rest"
    and sp: "list_all isSpace rest"
    using assms by (auto simp add: onlySpaceFollows_def split: option.splits)
  show ?thesis
  proof (cases "rest = []")
    case True
    then show ?thesis using r by (simp add: extractQuestion_def questionMatch_def)
  next
    case False
    have d: "dropWhile isSpace rest = []" by (rule dropWhile_all [OF sp])
    have "last rest \<in> set rest" using False by simp
    then have "isSpace (last rest)" using sp by (simp add: list_all_iff)
    then have "trim [last rest] = []" by (simp add: trim_def)
    then show ?thesis
      using r False d by (simp add: extractQuestion_def questionMatch_def)
  qed
qed

lemma iteration_need_input:
  assumes job: "currentJob w = Some job"
      and ex: "wk i p (claudeArgs cfg pr sid) = Exchange so se code"
      and nc: "\<not> isTaskComplete (streamOutput so se)"
      and ni: "needsHumanInput (streamOutput so se)"
  shows "\<exists>w5. iteration cfg wk t a p pr sid i w =
                 Inr (Return (blockAgent t a (extractQuestion (streamOutput so se)) w5))
           \<and> spawned w5 = spawned w @ [(p, claudeArgs cfg pr sid)]
           \<and> dom (agents w5) = dom (agents w)
           \<and> tickets w5 = tickets w
           \<and> messages w5 = messages w
           \<and> currentJob w5 \<noteq> None
           \<and> git w5 = git w \<and> queue w5 = queue w"
proof -
  let ?w3 = "broadcast (AgentProgress t a i (maxIterations cfg))
               (updateAgentStatus a Running (Some i) (w\<lparr>currentJob := Some (job\<lparr>iterations := i\<rparr>)\<rparr>))"
  let ?w5 = "setLastOutput (streamOutput so se)
               (setProcess (length (spawned ?w3))
                  (?w3\<lparr>spawned := spawned ?w3 @ [(p, claudeArgs cfg pr sid)]\<rparr>))"
  have 1: "iteration cfg wk t a p pr sid i w =
             Inr (Return (blockAgent t a (extractQuestion (streamOutput so se)) ?w5))"
    using job ex nc ni by (simp add: iteration_def Let_def)
  have 2: "spawned ?w5 = spawned w @ [(p, claudeArgs cfg pr sid)]"
    "dom (agents ?w5) = dom (agents w)"
    "tickets ?w5 = tickets w" "messages ?w5 = messages w" "currentJob ?w5 \<noteq> None"
    "git ?w5 = git w" "queue ?w5 = queue w"
    by (auto simp add: setProcess_def setLastOutput_def updateAgentStatus_def broadcast_def
          split: option.splits)
  show ?thesis
    by (rule exI [of _ ?w5]) (intro conjI 1 2)
qed

text \<open>
  Claim C10, as it holds. The output collected in an iteration holds the need-input
  marker with nothing or only white space after its first occurrence, and it does not hold
  the completion marker. Then the loop returns from that iteration with the job blocked:
  the agent row has the status BLOCKED, the ticket is in the column "blocked", and the
  question posted as the agent's message is the text "Agent needs human input". The job
  stays the current job and the workspace is untouched.
\<close>

theorem need_input_without_question_posts_fallback:
  assumes lt: "i < maxIterations cfg"
      and job: "currentJob w = Some job"
      and row: "agents w a = Some r"
      and tk: "tickets w t = Some k"
      and ex: "wk (Suc i) p (claudeArgs cfg pr sid) = Exchange so se code"
      and only: "onlySpaceFollows (streamOutput so se)"
      and nc: "\<not> isTaskComplete (streamOutput so se)"
  shows "\<exists>w'. agentLoop cfg wk t a p pr sid i w = (None, w')
      \<and> (\<exists>r'. agents w' a = Some r' \<and> agentStatus r' = ''BLOCKED'')
      \<and> (\<exists>k'. tickets w' t = Some k' \<and> columnId k' = Some ''blocked'')
      \<and> (\<exists>n. messages w' = messages w @ [\<lparr>msgId = n, msgTicketId = t,
                   content = ''Agent needs human input'', senderType = Agent\<rparr>])
      \<and> (\<exists>es. events w' = es @ [AgentBlocked t a ''Agent needs human input''])
      \<and> currentJob w' \<noteq> None
      \<and> git w' = git w"
proof -
  have ni: "needsHumanInput (streamOutput so se)"
    by (rule onlySpaceFollows_needsHumanInput [OF only])
  have q: "extractQuestion (streamOutput so se) = ''Agent needs human input''"
    by (rule extractQuestion_fallback [OF only])
  obtain w5 where
    it: "iteration cfg wk t a p pr sid (Suc i) w =
           Inr (Return (blockAgent t a ''Agent needs human input'' w5))"
    and ag: "dom (agents w5) = dom (agents w)"
    and tk5: "tickets w5 = tickets w"
    and ms: "messages w5 = messages w"
    and cj: "currentJob w5 \<noteq> None"
    and g: "git w5 = git w"
    using iteration_need_input [where w = w and job = job and wk = wk and i = "Suc i" and p = p
        and cfg = cfg and pr = pr and sid = sid and t = t and a = a, OF job ex nc ni] q
    by auto
  obtain r5 where r5: "agents w5 a = Some r5" using ag row by (metis domD domI)
  let ?w' = "blockAgent t a ''Agent needs human input'' w5"
  have 1: "agentLoop cfg wk t a p pr sid i w = (None, ?w')"
    using lt it by (simp add: agentLoop.simps [of cfg wk t a p pr sid i w])
  have 2: "\<exists>r'. agents ?w' a = Some r' \<and> agentStatus r' = ''BLOCKED''"
    using r5 by (simp add: blockAgent_effect)
  have 3: "\<exists>k'. tickets ?w' t = Some k' \<and> columnId k' = Some ''blocked''"
    using tk tk5 by (simp add: blockAgent_effect)
  have 4: "\<exists>n. messages ?w' = messages w @ [\<lparr>msgId = n, msgTicketId = t,
                   content = ''Agent needs human input'', senderType = Agent\<rparr>]"
    using ms by (simp add: blockAgent_effect)
  have 5: "\<exists>es. events ?w' = es @ [AgentBlocked t a ''Agent needs human input'']"
    by (simp add: blockAgent_effect)
  have 6: "currentJob ?w' \<noteq> None" using cj by (simp add: blockAgent_effect)
  have 7: "git ?w' = git w" using g by (simp add: blockAgent_effect)
  show ?thesis
    by (rule exI [of _ ?w']) (intro conjI 1 2 3 4 5 6 7)
qed

theorem need_input_without_question_posts_fallback_witness:
  "fst (agentLoop exCfg (sayingWorker (''I am stuck. NEED_HUMAN_INPUT:  '' @ [LF])) ''T1'' ''id0''
          ''/w/ticket-T1'' ''do it'' None 0 exStarted) = None
 \<and> map content (messages (snd (agentLoop exCfg
          (sayingWorker (''I am stuck. NEED_HUMAN_INPUT:  '' @ [LF])) ''T1'' ''id0''
          ''/w/ticket-T1'' ''do it'' None 0 exStarted))) = [''Agent needs human input'']"
proof -
  let ?out = "''I am stuck. NEED_HUMAN_INPUT:  '' @ [LF]"
  have lt: "0 < maxIterations exCfg" by (simp add: exCfg_def DEFAULT_CONFIG_def)
  have job: "currentJob exStarted = Some \<lparr> jobTicketId = ''T1'', agentId = ''id0'',
               jobStatus = Starting, jobProcess = None, iterations = 0, lastOutput = None \<rparr>"
    by (simp add: exStarted_eq)
  have row: "agents exStarted ''id0'' = Some \<lparr> agentTicketId = ''T1'', agentStatus = ''STARTING'',
               iterationCount = 0, agentMaxIterations = 3, completedAt = False \<rparr>"
    by (simp add: exStarted_eq)
  have tk: "tickets exStarted ''T1'' = Some exTicket"
    by (simp add: exStarted_eq)
  have ex: "sayingWorker ?out (Suc 0) ''/w/ticket-T1'' (claudeArgs exCfg ''do it'' None)
              = Exchange ?out [] 0"
    by (simp add: sayingWorker_def)
  have only: "onlySpaceFollows (streamOutput ?out [])"
    by (simp add: onlySpaceFollows_def streamOutput_def isSpace_def LF_def)
  have nc: "\<not> isTaskComplete (streamOutput ?out [])"
    by (simp add: isTaskComplete_def streamOutput_def LF_def)
  have ms: "messages exStarted = []" by (simp add: exStarted_eq)
  show ?thesis
    using need_input_without_question_posts_fallback
            [where wk = "sayingWorker ?out" and i = 0 and cfg = exCfg
               and w = exStarted and t = "''T1''" and a = "''id0''" and p = "''/w/ticket-T1''"
               and pr = "''do it''" and sid = None, OF lt job row tk ex only nc] ms
    by auto
qed

text \<open>
  Claim C10 without the condition on the completion marker fails: the loop looks for the
  completion marker first. An output that holds both markers, with nothing after the
  need-input marker, completes the job, and the only messages are those of the system:
  no question is posted.
\<close>

theorem need_input_after_completion_marker_completes:
  "needsHumanInput ''TASK_COMPLETE NEED_HUMAN_INPUT:''
 \<and> onlySpaceFollows ''TASK_COMPLETE NEED_HUMAN_INPUT:''
 \<and> map_option agentStatus
      (agents (run exCfg [StartRun (sayingWorker ''TASK_COMPLETE NEED_HUMAN_INPUT:'') exEnv]
                 exStarted) ''id0'') = Some ''COMPLETED''
 \<and> map senderType
      (messages (run exCfg [StartRun (sayingWorker ''TASK_COMPLETE NEED_HUMAN_INPUT:'') exEnv]
                   exStarted)) = [System, System]"
proof -
  let ?out = "''TASK_COMPLETE NEED_HUMAN_INPUT:''"
  have cr: "create exEnv ''T1'' ''main'' exGit =
              (Inr \<lparr>path = ''/w/ticket-T1'', branch = ''ticket/T1'', head = ''abc'', locked = True,
                    wtTicketId = Some ''T1''\<rparr>,
               \<lparr>worktreesDir = ''/w'', dirs = {''/w/ticket-T1''},
                 registered = [''/w/ticket-T1'' \<mapsto> \<lparr>isLocked = True, isDirty = False\<rparr>],
                 branches = [''ticket/T1'' \<mapsto> True]\<rparr>)"
    by (simp add: create_def Let_def exGit_def exEnv_def worktreePathOf_def existsSync_def
          branchNameOf_def git_worktree_add_def lock_def git_worktree_lock_def getHead_def)
  have cmp: "isTaskComplete (streamOutput ?out [])"
    by (simp add: isTaskComplete_def streamOutput_def)
  have a: "needsHumanInput ?out" by (simp add: needsHumanInput_def)
  have b: "onlySpaceFollows ?out" by (simp add: onlySpaceFollows_def)
  let ?g1 = "\<lparr>worktreesDir = ''/w'', dirs = {''/w/ticket-T1''},
                 registered = [''/w/ticket-T1'' \<mapsto> \<lparr>isLocked = True, isDirty = False\<rparr>],
                 branches = [''ticket/T1'' \<mapsto> True]\<rparr>"
  let ?w1 = "addSystemMessage ''T1'' ''Agent started. Working in branch: ticket/T1''
               (exStarted\<lparr>git := ?g1\<rparr>)"
  let ?pr = "buildAgentPrompt (getPRDContent ''T1'' ?w1)"
  have job: "currentJob ?w1 = Some \<lparr> jobTicketId = ''T1'', agentId = ''id0'',
               jobStatus = Starting, jobProcess = None, iterations = 0, lastOutput = None \<rparr>"
    by (simp add: exStarted_eq addSystemMessage_def addMessage_effect)
  have ex: "sayingWorker ?out (Suc 0) ''/w/ticket-T1'' (claudeArgs exCfg ?pr None)
              = Exchange ?out [] 0"
    by (simp add: sayingWorker_def)
  obtain w5 where
    it: "iteration exCfg (sayingWorker ?out) ''T1'' ''id0'' ''/w/ticket-T1'' ?pr None (Suc 0) ?w1 =
           Inr (Return (completeAgent ''T1'' ''id0'' (streamOutput ?out []) w5))"
    and ag: "dom (agents w5) = dom (agents ?w1)"
    and ms: "messages w5 = messages ?w1"
    using iteration_complete [where w = ?w1 and wk = "sayingWorker ?out" and i = "Suc 0"
        and p = "''/w/ticket-T1''" and cfg = exCfg and pr = ?pr and sid = None and t = "''T1''"
        and a = "''id0''", OF job ex cmp]
    by blast
  let ?w' = "completeAgent ''T1'' ''id0'' (streamOutput ?out []) w5"
  have lt: "0 < maxIterations exCfg" by (simp add: exCfg_def DEFAULT_CONFIG_def)
  have loop: "runAgentLoop exCfg (sayingWorker ?out) ''T1'' ''id0'' ''/w/ticket-T1'' ?w1 = (None, ?w')"
    using lt it
    by (simp add: runAgentLoop_def
          agentLoop.simps [of exCfg "sayingWorker ?out" "''T1''" "''id0''" "''/w/ticket-T1''" ?pr None 0 ?w1])
  have fl: "inflight exStarted = Some (Started ''T1'' ''id0'')" by (simp add: exStarted_eq)
  have gt: "git exStarted = exGit" by (simp add: exStarted_eq)
  have r: "run exCfg [StartRun (sayingWorker ?out) exEnv] exStarted
             = processQueue_done ''T1'' None ?w'"
    using loop by (simp add: run_def fl gt startAgent_run_def cr Let_def)
  have "''id0'' \<in> dom (agents w5)"
    using ag by (simp add: exStarted_eq addSystemMessage_def addMessage_effect)
  then obtain r5 where r5: "agents w5 ''id0'' = Some r5" by blast
  have pd: "agents (processQueue_done ''T1'' None ?w') = agents ?w'"
    "messages (processQueue_done ''T1'' None ?w') = messages ?w'"
    by (simp_all add: processQueue_done_def processQueue_take_def Let_def)
  have c: "map_option agentStatus
      (agents (run exCfg [StartRun (sayingWorker ?out) exEnv] exStarted) ''id0'') = Some ''COMPLETED''"
    using r5 by (simp add: r pd completeAgent_effect)
  have d: "map senderType
      (messages (run exCfg [StartRun (sayingWorker ?out) exEnv] exStarted)) = [System, System]"
  proof -
    have m1: "messages (run exCfg [StartRun (sayingWorker ?out) exEnv] exStarted) = messages ?w'"
      by (simp only: r pd)
    have m2: "map senderType (messages ?w1) = [System]"
      by (simp add: exStarted_eq addSystemMessage_def addMessage_effect)
    have "map senderType (messages ?w') = [System, System]"
      using ms m2 by (simp add: completeAgent_effect)
    then show ?thesis by (simp only: m1)
  qed
  show ?thesis using a b c d by simp
qed

subsection \<open>A workspace that cannot be created\<close>

lemma startAgent_init_effect:
  assumes "tickets w t = Some k"
  shows "\<exists>w4. startAgent_init cfg t w = Inr (''id'' @ string_of_nat (nextId w), w4)
           \<and> agents w4 = (agents w)(''id'' @ string_of_nat (nextId w) \<mapsto>
                \<lparr> agentTicketId = t, agentStatus = ''STARTING'', iterationCount = 0,
                  agentMaxIterations = maxIterations cfg, completedAt = False \<rparr>)
           \<and> tickets w4 = tickets w \<and> messages w4 = messages w
           \<and> events w4 = events w @ [AgentStarted t (''id'' @ string_of_nat (nextId w))]
           \<and> git w4 = git w \<and> spawned w4 = spawned w \<and> queue w4 = queue w
           \<and> (\<exists>job. currentJob w4 = Some job \<and> jobTicketId job = t)"
  using assms by (simp add: startAgent_init_def nanoid_def broadcast_def Let_def)

text \<open>
  Claim C9, as it holds. The ticket exists and \<open>create\<close> fails in \<open>startAgent\<close> with the
  error \<open>e\<close>. Then \<open>startAgent\<close> returns without an error; the agent row of the new job
  has the status FAILED and no iteration counted; the ticket is in the column "blocked";
  the last message is the system message "Agent failed: ..." with the error; the last
  event is "agent.failed"; no command has been spawned and no progress event sent, so no
  iteration was attempted; git holds no working tree for the ticket; and there is no
  current job. The directory of the workspace does not exist afterwards when it did not
  exist before or was a working tree of git.
\<close>

theorem workspace_creation_failure_fails_job:
  assumes tk: "tickets w t = Some k"
      and cf: "fst (create env t ''main'' (git w)) = Inl e"
  shows "\<exists>w'. startAgent cfg wk env t w = (None, w')
      \<and> (\<exists>r'. agents w' (fst (nanoid w)) = Some r' \<and> agentStatus r' = ''FAILED''
               \<and> iterationCount r' = 0)
      \<and> (\<exists>k'. tickets w' t = Some k' \<and> columnId k' = Some ''blocked'')
      \<and> (\<exists>n. messages w' = messages w @ [\<lparr>msgId = n, msgTicketId = t,
                   content = ''Agent failed: '' @ render e, senderType = System\<rparr>])
      \<and> (\<exists>es. events w' = es @ [AgentFailed t (fst (nanoid w)) (render e)])
      \<and> spawned w' = spawned w
      \<and> filter isProgress (events w') = filter isProgress (events w)
      \<and> registered (git w') (worktreePathOf (git w) t) = None
      \<and> currentJob w' = None
      \<and> (workspaceIsWorktree (git w) t \<longrightarrow> \<not> existsSync (worktreePathOf (git w) t) (git w'))"
proof -
  let ?a = "''id'' @ string_of_nat (nextId w)"
  have a: "fst (nanoid w) = ?a" by (simp add: nanoid_def)
  obtain w4 where
    init: "startAgent_init cfg t w = Inr (?a, w4)"
    and ag: "agents w4 = (agents w)(?a \<mapsto>
                \<lparr> agentTicketId = t, agentStatus = ''STARTING'', iterationCount = 0,
                  agentMaxIterations = maxIterations cfg, completedAt = False \<rparr>)"
    and tk4: "tickets w4 = tickets w" and ms4: "messages w4 = messages w"
    and ev4: "events w4 = events w @ [AgentStarted t ?a]"
    and g4: "git w4 = git w" and sp4: "spawned w4 = spawned w"
    using startAgent_init_effect [OF tk, of cfg] by blast
  obtain g1 where cr: "create env t ''main'' (git w) = (Inl e, g1)"
    using cf by (cases "create env t ''main'' (git w)") simp
  let ?w5 = "w4\<lparr>git := g1\<rparr>"
  let ?w' = "failAgent t ?a (render e) ?w5"
  have rn: "startAgent_run cfg wk env t ?a w4 = ?w'"
    unfolding startAgent_run_def g4 cr by simp
  have 1: "startAgent cfg wk env t w = (None, ?w')"
    using init rn by (simp add: startAgent_def)
  have 2: "\<exists>r'. agents ?w' (fst (nanoid w)) = Some r' \<and> agentStatus r' = ''FAILED''
               \<and> iterationCount r' = 0"
    by (simp add: a failAgent_effect ag)
  have 3: "\<exists>k'. tickets ?w' t = Some k' \<and> columnId k' = Some ''blocked''"
    using tk by (simp add: failAgent_effect tk4)
  have 4: "\<exists>n. messages ?w' = messages w @ [\<lparr>msgId = n, msgTicketId = t,
                   content = ''Agent failed: '' @ render e, senderType = System\<rparr>]"
    by (simp add: failAgent_effect ms4)
  have 5: "\<exists>es. events ?w' = es @ [AgentFailed t (fst (nanoid w)) (render e)]"
    by (simp add: a failAgent_effect)
  have 6: "spawned ?w' = spawned w" by (simp add: failAgent_effect sp4)
  have 7: "filter isProgress (events ?w') = filter isProgress (events w)"
    by (simp add: failAgent_effect ev4)
  have dir: "worktreesDir g1 = worktreesDir (git w)"
    and cases: "(existsSync (worktreePathOf (git w) t) (git w) \<and> g1 = git w)
                 \<or> \<not> existsSync (worktreePathOf (git w) t) g1"
    using create_failure_cases [OF cr] by simp_all
  have p: "worktreePathOf g1 t = worktreePathOf (git w) t"
    using dir by (simp add: worktreePathOf_def)
  have 8: "registered (git ?w') (worktreePathOf (git w) t) = None"
    using remove_forced(2) [of t g1] p by (simp add: failAgent_effect)
  have 9: "currentJob ?w' = None" by (simp add: failAgent_effect)
  have 10: "workspaceIsWorktree (git w) t \<longrightarrow> \<not> existsSync (worktreePathOf (git w) t) (git ?w')"
  proof
    assume wf: "workspaceIsWorktree (git w) t"
    have "workspaceIsWorktree g1 t \<or> \<not> existsSync (worktreePathOf g1 t) g1"
      using cases wf p by auto
    then show "\<not> existsSync (worktreePathOf (git w) t) (git ?w')"
      using remove_forced(1) [of g1 t] p by (simp add: failAgent_effect)
  qed
  show ?thesis
    by (rule exI [of _ ?w']) (intro conjI 1 2 3 4 5 6 7 8 9 10)
qed

text \<open>
  A ticket whose earlier job has left its workspace behind, locked: the directory exists
  and is a working tree of git, so \<open>create\<close> fails with the already-exists error, and the
  forced removal takes the directory away.
\<close>

theorem workspace_creation_failure_fails_job_witness:
  "fst (create exEnv ''T1'' ''main''
          (exGit\<lparr>dirs := {''/w/ticket-T1''},
                 registered := [''/w/ticket-T1'' \<mapsto> \<lparr>isLocked = True, isDirty = True\<rparr>],
                 branches := [''ticket/T1'' \<mapsto> False]\<rparr>))
     = Inl (Error ''Worktree already exists for ticket T1'')
 \<and> existsSync ''/w/ticket-T1''
      (exGit\<lparr>dirs := {''/w/ticket-T1''},
             registered := [''/w/ticket-T1'' \<mapsto> \<lparr>isLocked = True, isDirty = True\<rparr>],
             branches := [''ticket/T1'' \<mapsto> False]\<rparr>)
 \<and> fst (startAgent exCfg (sayingWorker ''working'') exEnv ''T1''
          (exWorld\<lparr>git := exGit\<lparr>dirs := {''/w/ticket-T1''},
                 registered := [''/w/ticket-T1'' \<mapsto> \<lparr>isLocked = True, isDirty = True\<rparr>],
                 branches := [''ticket/T1'' \<mapsto> False]\<rparr>\<rparr>)) = None
 \<and> currentJob (snd (startAgent exCfg (sayingWorker ''working'') exEnv ''T1''
          (exWorld\<lparr>git := exGit\<lparr>dirs := {''/w/ticket-T1''},
                 registered := [''/w/ticket-T1'' \<mapsto> \<lparr>isLocked = True, isDirty = True\<rparr>],
                 branches := [''ticket/T1'' \<mapsto> False]\<rparr>\<rparr>))) = None
 \<and> spawned (snd (startAgent exCfg (sayingWorker ''working'') exEnv ''T1''
          (exWorld\<lparr>git := exGit\<lparr>dirs := {''/w/ticket-T1''},
                 registered := [''/w/ticket-T1'' \<mapsto> \<lparr>isLocked = True, isDirty = True\<rparr>],
                 branches := [''ticket/T1'' \<mapsto> False]\<rparr>\<rparr>))) = []
 \<and> \<not> existsSync ''/w/ticket-T1'' (git (snd (startAgent exCfg (sayingWorker ''working'') exEnv
          ''T1''
          (exWorld\<lparr>git := exGit\<lparr>dirs := {''/w/ticket-T1''},
                 registered := [''/w/ticket-T1'' \<mapsto> \<lparr>isLocked = True, isDirty = True\<rparr>],
                 branches := [''ticket/T1'' \<mapsto> False]\<rparr>\<rparr>))))"
proof -
  let ?g = "exGit\<lparr>dirs := {''/w/ticket-T1''},
                 registered := [''/w/ticket-T1'' \<mapsto> \<lparr>isLocked = True, isDirty = True\<rparr>],
                 branches := [''ticket/T1'' \<mapsto> False]\<rparr>"
  let ?w = "exWorld\<lparr>git := ?g\<rparr>"
  have tk: "tickets ?w ''T1'' = Some exTicket"
    by (simp add: exWorld_def initOrchestrator_def)
  have g: "git ?w = ?g" by simp
  have p: "worktreePathOf ?g ''T1'' = ''/w/ticket-T1''"
    by (simp add: worktreePathOf_def exGit_def)
  have ex: "existsSync ''/w/ticket-T1'' ?g" by (simp add: existsSync_def)
  have cf: "fst (create exEnv ''T1'' ''main'' (git ?w))
              = Inl (Error ''Worktree already exists for ticket T1'')"
    using ex by (simp add: create_def Let_def p)
  have wf: "workspaceIsWorktree (git ?w) ''T1''"
    by (simp add: workspaceIsWorktree_def p)
  have sp: "spawned ?w = []" by (simp add: exWorld_def initOrchestrator_def)
  have cf': "fst (create exEnv ''T1'' ''main'' ?g)
              = Inl (Error ''Worktree already exists for ticket T1'')"
    using cf by simp
  obtain w' where
    st: "startAgent exCfg (sayingWorker ''working'') exEnv ''T1'' ?w = (None, w')"
    and sp': "spawned w' = spawned ?w"
    and cj: "currentJob w' = None"
    and dir: "workspaceIsWorktree (git ?w) ''T1''
                \<longrightarrow> \<not> existsSync (worktreePathOf (git ?w) ''T1'') (git w')"
    using workspace_creation_failure_fails_job [OF tk cf, of exCfg "sayingWorker ''working''"]
    by blast
  have nd: "\<not> existsSync ''/w/ticket-T1'' (git w')"
    using dir wf p by simp
  show ?thesis
    using cf' ex st sp' sp cj nd by simp
qed

text \<open>
  Claim C9 as it was made fails where the directory of the workspace exists without being
  a working tree of git: \<open>create\<close> throws the already-exists error, the forced removal
  goes through git, which knows no such working tree, its error is ignored, and the
  directory is still there after the job has failed.
\<close>

theorem unregistered_directory_survives_failed_start:
  "fst (create exEnv ''T1'' ''main'' (exGit\<lparr>dirs := {''/w/ticket-T1''}\<rparr>))
     = Inl (Error ''Worktree already exists for ticket T1'')
 \<and> fst (startAgent exCfg (sayingWorker ''working'') exEnv ''T1''
          (exWorld\<lparr>git := exGit\<lparr>dirs := {''/w/ticket-T1''}\<rparr>\<rparr>)) = None
 \<and> map_option agentStatus
      (agents (snd (startAgent exCfg (sayingWorker ''working'') exEnv ''T1''
                      (exWorld\<lparr>git := exGit\<lparr>dirs := {''/w/ticket-T1''}\<rparr>\<rparr>))) ''id0'')
     = Some ''FAILED''
 \<and> existsSync ''/w/ticket-T1''
      (git (snd (startAgent exCfg (sayingWorker ''working'') exEnv ''T1''
                   (exWorld\<lparr>git := exGit\<lparr>dirs := {''/w/ticket-T1''}\<rparr>\<rparr>))))"
proof -
  let ?g = "exGit\<lparr>dirs := {''/w/ticket-T1''}\<rparr>"
  let ?w = "exWorld\<lparr>git := ?g\<rparr>"
  have p: "worktreePathOf ?g ''T1'' = ''/w/ticket-T1''"
    by (simp add: worktreePathOf_def exGit_def)
  have cr: "create exEnv ''T1'' ''main'' ?g =
              (Inl (Error ''Worktree already exists for ticket T1''), ?g)"
    by (simp add: create_def Let_def p existsSync_def)
  have rm: "snd (remove ''T1'' True ?g) = ?g"
    by (simp add: remove_def Let_def unlock_def git_worktree_unlock_def git_worktree_remove_def
          p exGit_def)
  have tk: "tickets ?w ''T1'' = Some exTicket" by (simp add: exWorld_def initOrchestrator_def)
  have n: "nextId ?w = 0" by (simp add: exWorld_def initOrchestrator_def)
  obtain w4 where
    init: "startAgent_init exCfg ''T1'' ?w = Inr (''id'' @ string_of_nat (nextId ?w), w4)"
    and ag: "agents w4 = (agents ?w)(''id'' @ string_of_nat (nextId ?w) \<mapsto>
                \<lparr> agentTicketId = ''T1'', agentStatus = ''STARTING'', iterationCount = 0,
                  agentMaxIterations = maxIterations exCfg, completedAt = False \<rparr>)"
    and g4: "git w4 = git ?w"
    using startAgent_init_effect [OF tk, of exCfg] by blast
  have i0: "''id'' @ string_of_nat (nextId ?w) = ''id0''"
    by (simp add: n string_of_nat.simps digit_def)
  let ?w' = "failAgent ''T1'' ''id0'' (render (Error ''Worktree already exists for ticket T1''))
               (w4\<lparr>git := ?g\<rparr>)"
  have g4': "git w4 = ?g" using g4 by simp
  have rn: "startAgent_run exCfg (sayingWorker ''working'') exEnv ''T1'' ''id0'' w4 = ?w'"
    unfolding startAgent_run_def g4' cr by simp
  have st: "startAgent exCfg (sayingWorker ''working'') exEnv ''T1'' ?w = (None, ?w')"
    using init rn i0 by (simp add: startAgent_def)
  have a: "map_option agentStatus (agents ?w' ''id0'') = Some ''FAILED''"
    using ag i0 by (simp add: failAgent_effect)
  have b: "existsSync ''/w/ticket-T1'' (git ?w')"
    by (simp add: failAgent_effect rm existsSync_def)
  show ?thesis
    using cr st a b by simp
qed

subsection \<open>The queue\<close>

lemma iteration_queue:
  "iteration cfg wk t a p pr sid i w = Inr st \<Longrightarrow> queue (stateOf st) = queue w"
  by (auto simp add: iteration_def Let_def setProcess_def setLastOutput_def
        completeAgent_effect blockAgent_effect addSystemMessage_def addMessage_effect
        updateAgentStatus_def broadcast_def
        split: option.splits iter_result.splits if_splits)

lemma agentLoop_queue: "queue (snd (agentLoop cfg wk t a p pr sid i w)) = queue w"
proof (induction cfg wk t a p pr sid i w rule: agentLoop.induct)
  case (1 cfg wk t a p pr sid i w)
  show ?case
  proof (cases "i < maxIterations cfg")
    case False
    then show ?thesis
      by (simp add: agentLoop.simps [of cfg wk t a p pr sid i w] blockAgent_effect)
  next
    case True
    show ?thesis
    proof (cases "iteration cfg wk t a p pr sid (Suc i) w")
      case (Inl e)
      with True show ?thesis by (simp add: agentLoop.simps [of cfg wk t a p pr sid i w])
    next
      case (Inr st)
      show ?thesis
      proof (cases st)
        case (Return w')
        with True Inr iteration_queue [OF Inr] show ?thesis
          by (simp add: agentLoop.simps [of cfg wk t a p pr sid i w])
      next
        case (Next s w')
        with True Inr iteration_queue [OF Inr] "1.IH" [OF True Inr Next] show ?thesis
          by (simp add: agentLoop.simps [of cfg wk t a p pr sid i w])
      qed
    qed
  qed
qed

lemma startAgent_run_queue: "queue (startAgent_run cfg wk env t a w) = queue w"
proof (cases "create env t ''main'' (git w)")
  case (Pair res g1)
  show ?thesis
  proof (cases res)
    case (Inl e)
    with Pair show ?thesis by (simp add: startAgent_run_def failAgent_effect)
  next
    case (Inr wt)
    let ?w1 = "addSystemMessage t (''Agent started. Working in branch: '' @ branch wt)
                 (w\<lparr>git := g1\<rparr>)"
    have q1: "queue ?w1 = queue w" by (simp add: addSystemMessage_def addMessage_effect)
    obtain thrown w2 where l: "runAgentLoop cfg wk t a (path wt) ?w1 = (thrown, w2)"
      by (cases "runAgentLoop cfg wk t a (path wt) ?w1") auto
    have q2: "queue w2 = queue w"
      using agentLoop_queue
              [of cfg wk t a "path wt" "buildAgentPrompt (getPRDContent t ?w1)" None 0 ?w1]
            l q1
      by (simp add: runAgentLoop_def)
    show ?thesis
      using Pair Inr l q2
      by (cases thrown) (simp_all add: startAgent_run_def Let_def failAgent_effect)
  qed
qed

lemma startAgent_init_queue:
  "startAgent_init cfg t w = Inr (a, w1) \<Longrightarrow> queue w1 = queue w"
  by (auto simp add: startAgent_init_def nanoid_def broadcast_def Let_def split: option.splits)

lemma processQueue_take_distinct:
  "distinct (queue w) \<Longrightarrow> distinct (queue (processQueue_take w))"
  by (simp add: processQueue_take_def distinct_tl)

lemma processQueue_done_distinct:
  "distinct (queue w) \<Longrightarrow> distinct (queue (processQueue_done t thrown w))"
  by (cases thrown)
     (simp_all add: processQueue_done_def Let_def processQueue_take_def distinct_tl
        addSystemMessage_def addMessage_effect updateTicketColumn_def broadcast_def
        split: option.splits)

lemma enqueue_distinct: "distinct (queue w) \<Longrightarrow> distinct (queue (enqueue t w))"
  by (simp add: enqueue_def Let_def processQueue_take_def broadcast_def distinct_tl)

lemma dequeue_distinct: "distinct (queue w) \<Longrightarrow> distinct (queue (dequeue t w))"
  by (simp add: dequeue_def Let_def broadcast_def)

lemma resumeAgent_distinct:
  "distinct (queue w) \<Longrightarrow> distinct (queue (snd (resumeAgent t r w)))"
  by (auto simp add: resumeAgent_def addHumanMessage_def addMessage_effect
        intro!: enqueue_distinct split: option.splits)

lemma killAgent_distinct:
  "distinct (queue w) \<Longrightarrow> distinct (queue (snd (killAgent t w)))"
  by (auto simp add: killAgent_def Let_def failAgent_effect split: option.splits)

lemma exec_distinct: "distinct (queue w) \<Longrightarrow> distinct (queue (exec cfg w x))"
proof (cases x)
  case (Enqueue t)
  assume "distinct (queue w)"
  then show ?thesis using Enqueue by (simp add: enqueue_distinct)
next
  case (Dequeue t)
  assume "distinct (queue w)"
  then show ?thesis using Dequeue by (simp add: dequeue_distinct)
next
  case (Resume t r)
  assume "distinct (queue w)"
  then show ?thesis using Resume by (simp add: resumeAgent_distinct)
next
  case (Kill t)
  assume "distinct (queue w)"
  then show ?thesis using Kill by (simp add: killAgent_distinct)
next
  case StartInit
  assume d: "distinct (queue w)"
  show ?thesis
  proof (cases "inflight w")
    case None
    with StartInit d show ?thesis by simp
  next
    case (Some ph)
    show ?thesis
    proof (cases ph)
      case (Started t a)
      with StartInit Some d show ?thesis by simp
    next
      case (Taken t)
      show ?thesis
      proof (cases "startAgent_init cfg t w")
        case (Inl e)
        with StartInit Some Taken d show ?thesis by (simp add: processQueue_done_distinct)
      next
        case (Inr aw)
        obtain a w1 where aw: "aw = (a, w1)" by (cases aw)
        have "queue w1 = queue w" using Inr aw startAgent_init_queue by blast
        with StartInit Some Taken Inr aw d show ?thesis by simp
      qed
    qed
  qed
next
  case (StartRun wk env)
  assume d: "distinct (queue w)"
  show ?thesis
  proof (cases "inflight w")
    case None
    with StartRun d show ?thesis by simp
  next
    case (Some ph)
    show ?thesis
    proof (cases ph)
      case (Taken t)
      with StartRun Some d show ?thesis by simp
    next
      case (Started t a)
      have "distinct (queue (startAgent_run cfg wk env t a w))"
        using d by (simp add: startAgent_run_queue)
      then show ?thesis
        using StartRun Some Started by (simp add: processQueue_done_distinct)
    qed
  qed
qed

lemma run_distinct: "distinct (queue w) \<Longrightarrow> distinct (queue (run cfg ops w))"
  unfolding run_def
  by (induction ops arbitrary: w) (simp_all add: exec_distinct)

text \<open>
  Claim C1, as it holds. Whatever requests and steps of the drain follow one another, the
  queue never holds a ticket identifier twice: \<open>enqueue\<close>, \<open>dequeue\<close> and the drain keep
  the queue free of duplicates, and nothing else writes it, the loop included
  (\<open>agentLoop_queue\<close>), so a request served while the loop waits for the worker finds and
  leaves the queue as it would before or after the loop. The ticket that the drain takes for
  processing leaves the queue at that moment. \<open>enqueue\<close> looks at the queue only: while a
  drain is under way it appends every ticket that is not in the queue, whether or not it
  is the ticket of the current job.
\<close>

theorem queue_holds_no_ticket_twice:
  assumes "distinct (queue w)"
  shows "distinct (queue (run cfg ops w))
       \<and> (\<not> isProcessing w \<and> queue w \<noteq> [] \<longrightarrow>
            inflight (processQueue_take w) = Some (Taken (hd (queue w)))
          \<and> hd (queue w) \<notin> set (queue (processQueue_take w)))
       \<and> (t \<notin> set (queue w) \<and> isProcessing w \<longrightarrow> queue (enqueue t w) = queue w @ [t])"
proof (intro conjI impI)
  show "distinct (queue (run cfg ops w))" by (rule run_distinct [OF assms])
next
  assume a: "\<not> isProcessing w \<and> queue w \<noteq> []"
  then obtain x xs where q: "queue w = x # xs" by (cases "queue w") auto
  show "inflight (processQueue_take w) = Some (Taken (hd (queue w)))"
    using a by (simp add: processQueue_take_def)
  show "hd (queue w) \<notin> set (queue (processQueue_take w))"
    using a assms q by (simp add: processQueue_take_def)
next
  assume "t \<notin> set (queue w) \<and> isProcessing w"
  then show "queue (enqueue t w) = queue w @ [t]"
    by (simp add: enqueue_def Let_def processQueue_take_def broadcast_def)
qed

theorem queue_holds_no_ticket_twice_witness:
  "distinct (queue (run exCfg [Enqueue ''T2'', Enqueue ''T1'', Dequeue ''T3'']
                      (exWorld\<lparr>queue := [''T1'', ''T2'']\<rparr>)))
 \<and> ''T1'' \<notin> set (queue (processQueue_take (exWorld\<lparr>queue := [''T1'', ''T2'']\<rparr>)))
 \<and> queue (enqueue ''T1'' exStarted) = [''T1'']"
proof -
  let ?w = "exWorld\<lparr>queue := [''T1'', ''T2'']\<rparr>"
  have d: "distinct (queue ?w)" by simp
  have n: "\<not> isProcessing ?w \<and> queue ?w \<noteq> []" by (simp add: exWorld_def initOrchestrator_def)
  have d2: "distinct (queue exStarted)" by (simp add: exStarted_eq)
  have p: "''T1'' \<notin> set (queue exStarted) \<and> isProcessing exStarted" by (simp add: exStarted_eq)
  have q: "queue exStarted = []" by (simp add: exStarted_eq)
  show ?thesis
    using queue_holds_no_ticket_twice [OF d, of exCfg "[Enqueue ''T2'', Enqueue ''T1'', Dequeue ''T3'']"] n
      queue_holds_no_ticket_twice [OF d2, of exCfg "[]" "''T1''"] p q
    by simp
qed

text \<open>
  Claim C1 as it was made fails: after \<open>startAgent\<close> has made the job of T1 the current
  job, and while the drain is under way, \<open>enqueue\<close> for T1 puts T1 on the queue.
\<close>

theorem enqueue_of_current_ticket_is_queued:
  "currentTicketId (run exCfg [Enqueue ''T1'', StartInit, Enqueue ''T1''] exWorld) = Some ''T1''
 \<and> isProcessing (run exCfg [Enqueue ''T1'', StartInit, Enqueue ''T1''] exWorld)
 \<and> queue (run exCfg [Enqueue ''T1'', StartInit, Enqueue ''T1''] exWorld) = [''T1'']"
proof -
  have "run exCfg [Enqueue ''T1'', StartInit, Enqueue ''T1''] exWorld = enqueue ''T1'' exStarted"
    by (simp add: run_def exStarted_def)
  then show ?thesis
    by (simp add: exStarted_eq enqueue_def Let_def processQueue_take_def broadcast_def
          currentTicketId_def)
qed

subsection \<open>Resuming\<close>

lemma resumeAgent_no_match:
  "currentTicketId w \<noteq> Some t \<Longrightarrow>
   resumeAgent t r w = (Some (Error (''No blocked agent found for ticket '' @ t)), w)"
  by (auto simp add: resumeAgent_def currentTicketId_def split: option.splits)

lemma resumeAgent_match:
  "currentTicketId w = Some t \<Longrightarrow>
   resumeAgent t r w = (None, enqueue t ((addHumanMessage t r w)\<lparr>currentJob := None\<rparr>))"
  by (auto simp add: resumeAgent_def currentTicketId_def split: option.splits)

text \<open>
  Claim C6 at a job that is not blocked. The job of T1 has just been created: its agent
  row has the status STARTING and \<open>startAgent\<close> is about to create the workspace. The
  route \<open>POST /resume/T1\<close> with the response "go on" is answered with 200 "Agent resumed":
  the response is recorded as a message of the human, the current job is cleared, and T1
  is put on the queue.
\<close>

theorem resume_accepts_job_that_is_not_blocked:
  "map_option agentStatus (agents exStarted ''id0'') = Some ''STARTING''
 \<and> fst (resumeRoute ''T1'' (Some ''go on'') exStarted) = (200, MessageBody ''Agent resumed'' ''T1'')
 \<and> currentJob (snd (resumeRoute ''T1'' (Some ''go on'') exStarted)) = None
 \<and> queue (snd (resumeRoute ''T1'' (Some ''go on'') exStarted)) = [''T1'']
 \<and> map content (messages (snd (resumeRoute ''T1'' (Some ''go on'') exStarted))) = [''go on'']
 \<and> map senderType (messages (snd (resumeRoute ''T1'' (Some ''go on'') exStarted))) = [Human]"
proof -
  have c: "currentTicketId exStarted = Some ''T1''"
    by (simp add: exStarted_eq currentTicketId_def)
  let ?w = "enqueue ''T1'' ((addHumanMessage ''T1'' ''go on'' exStarted)\<lparr>currentJob := None\<rparr>)"
  have r: "resumeRoute ''T1'' (Some ''go on'') exStarted = ((200, MessageBody ''Agent resumed'' ''T1''), ?w)"
    using resumeAgent_match [OF c, of "''go on''"] by (simp add: resumeRoute_def)
  have w: "currentJob ?w = None" "queue ?w = [''T1'']"
    "map content (messages ?w) = [''go on'']" "map senderType (messages ?w) = [Human]"
    by (simp_all add: exStarted_eq enqueue_def Let_def processQueue_take_def broadcast_def
          addHumanMessage_def addMessage_def nanoid_def)
  have s: "map_option agentStatus (agents exStarted ''id0'') = Some ''STARTING''"
    by (simp add: exStarted_eq)
  show ?thesis using r w s by simp
qed

end
